theory Spec2Isabelle
  imports Complex_Main "HOL-Library.Multiset" "HOL-Library.Sublist"
begin

section \<open>Request-layer values: strings and JavaScript numbers\<close>

text \<open>
  The server (the Express application in \<^verbatim>\<open>main.tsx\<close>, lines 594-940) reads every number it
  uses from a string with \<^verbatim>\<open>parseInt\<close>. A JavaScript number obtained that way is modelled as
  an \<open>int option\<close>: \<open>None\<close> is \<^verbatim>\<open>NaN\<close>, \<open>Some n\<close> the integer \<open>n\<close>. Integers are unbounded
  here; JavaScript's doubles agree with them below \<open>2^53\<close>. Strings are lists of 8-bit
  characters (the Latin-1 range of JavaScript's code units).
\<close>

definition is_space :: "char \<Rightarrow> bool" where
  \<comment> \<open>StrWhiteSpaceChar: TAB, LF, VT, FF, CR, SP, NBSP\<close>
  "is_space c = (let k = (of_char c :: nat) in (9 \<le> k \<and> k \<le> 13) \<or> k = 32 \<or> k = 160)"

definition digit_value :: "char \<Rightarrow> nat option" where
  \<comment> \<open>the value of a digit in radix up to 36: 0-9, a-z, A-Z\<close>
  "digit_value c =
     (let k = (of_char c :: nat) in
      if 48 \<le> k \<and> k \<le> 57 then Some (k - 48)
      else if 97 \<le> k \<and> k \<le> 122 then Some (k - 87)
      else if 65 \<le> k \<and> k \<le> 90 then Some (k - 55)
      else None)"

definition is_digit :: "nat \<Rightarrow> char \<Rightarrow> bool" where
  "is_digit radix c = (case digit_value c of None \<Rightarrow> False | Some d \<Rightarrow> d < radix)"

definition digits_value :: "nat \<Rightarrow> string \<Rightarrow> nat" where
  "digits_value radix ds =
     foldl (\<lambda>a c. a * radix + (case digit_value c of None \<Rightarrow> 0 | Some d \<Rightarrow> d)) 0 ds"

definition parseInt :: "string \<Rightarrow> int option" where
  \<comment> \<open>\<^verbatim>\<open>parseInt(s)\<close> with no radix argument: leading white space is skipped, then an
      optional sign, then an optional \<^verbatim>\<open>0x\<close>/\<^verbatim>\<open>0X\<close> (radix 16, otherwise 10), then the longest
      run of digits of that radix; no digit at all gives \<^verbatim>\<open>NaN\<close>.\<close>
  "parseInt s =
     (let t = dropWhile is_space s;
          neg = (case t of [] \<Rightarrow> False | c # _ \<Rightarrow> c = CHR ''-'');
          u = (case t of [] \<Rightarrow> t | c # r \<Rightarrow> if c = CHR ''-'' \<or> c = CHR ''+'' then r else t);
          hex = (case u of a # b # _ \<Rightarrow> a = CHR ''0'' \<and> (b = CHR ''x'' \<or> b = CHR ''X'')
                 | _ \<Rightarrow> False);
          radix = (if hex then 16 else 10);
          v = (if hex then drop 2 u else u);
          ds = takeWhile (is_digit radix) v
      in if ds = [] then None
         else Some ((if neg then - 1 else 1) * int (digits_value radix ds)))"

definition parseInt_query :: "string option \<Rightarrow> int option" where
  \<comment> \<open>\<^verbatim>\<open>parseInt(req.query.x)\<close>: an absent parameter is \<^verbatim>\<open>undefined\<close>, which parses to \<^verbatim>\<open>NaN\<close>\<close>
  "parseInt_query q = (case q of None \<Rightarrow> None | Some s \<Rightarrow> parseInt s)"

definition js_or :: "int option \<Rightarrow> int \<Rightarrow> int" where
  \<comment> \<open>\<^verbatim>\<open>x || d\<close> on numbers: \<^verbatim>\<open>NaN\<close> and \<^verbatim>\<open>0\<close> are falsy\<close>
  "js_or x d = (case x of None \<Rightarrow> d | Some n \<Rightarrow> if n = 0 then d else n)"

definition digit_char :: "nat \<Rightarrow> char" where
  "digit_char d = ''0123456789'' ! d"

fun decimal :: "nat \<Rightarrow> string" where
  \<comment> \<open>the decimal digits a template literal prints for a non-negative integer\<close>
  "decimal n =
     (if n < 10 then [digit_char n]
      else decimal (n div 10) @ [digit_char (n mod 10)])"

declare decimal.simps [simp del]


section \<open>The metadata store: the table \<^verbatim>\<open>files\<close>\<close>

text \<open>
  \<^verbatim>\<open>CREATE TABLE files (id INTEGER PRIMARY KEY AUTOINCREMENT, name TEXT NOT NULL,
  size INTEGER NOT NULL, content_type TEXT NOT NULL, s3_key TEXT NOT NULL UNIQUE,
  starred INTEGER DEFAULT 0, trashed INTEGER DEFAULT 0,
  created_at DATETIME DEFAULT CURRENT_TIMESTAMP)\<close>

  A row is a record; \<open>created_at\<close> is the value of \<^verbatim>\<open>CURRENT_TIMESTAMP\<close> at the insert,
  a text \<^verbatim>\<open>YYYY-MM-DD HH:MM:SS\<close> with whole seconds, held here as the number of seconds it
  denotes (the order of the texts is the order of these numbers). The table is the list of
  its rows in rowid order, with the counter that \<^verbatim>\<open>AUTOINCREMENT\<close> keeps in
  \<^verbatim>\<open>sqlite_sequence\<close>: the largest rowid ever handed out.
\<close>

record file_row =
  file_id :: int
  name :: string
  file_size :: nat
  content_type :: string
  s3_key :: string
  starred :: nat
  trashed :: nat
  created_at :: nat

record database =
  files :: "file_row list"
  seq :: int

datatype sql_error = SQLITE_CONSTRAINT_UNIQUE

definition db_init :: database where
  "db_init = \<lparr>files = [], seq = 0\<rparr>"

definition next_rowid :: "database \<Rightarrow> int" where
  \<comment> \<open>AUTOINCREMENT: one more than the largest rowid the table holds or has ever held\<close>
  "next_rowid d = fold max (map file_id (files d)) (seq d) + 1"

definition insertFile ::
  "string \<Rightarrow> nat \<Rightarrow> string \<Rightarrow> string \<Rightarrow> nat \<Rightarrow> database \<Rightarrow> sql_error + (int \<times> database)" where
  \<comment> \<open>\<^verbatim>\<open>INSERT INTO files (name, size, content_type, s3_key) VALUES (?, ?, ?, ?)\<close>; the last
      argument is \<^verbatim>\<open>CURRENT_TIMESTAMP\<close>. The result carries \<^verbatim>\<open>lastInsertRowid\<close>.\<close>
  "insertFile nm sz ct key now d =
     (if key \<in> set (map s3_key (files d)) then Inl SQLITE_CONSTRAINT_UNIQUE
      else let rid = next_rowid d;
               r = \<lparr>file_id = rid, name = nm, file_size = sz, content_type = ct, s3_key = key,
                    starred = 0, trashed = 0, created_at = now\<rparr>
           in Inr (rid, \<lparr>files = files d @ [r], seq = rid\<rparr>))"

definition order_by_created_at_desc :: "file_row list \<Rightarrow> file_row list" where
  \<comment> \<open>\<^verbatim>\<open>ORDER BY created_at DESC\<close>; rows with equal keys stay in scan (rowid) order, as
      SQLite's sorter leaves them\<close>
  "order_by_created_at_desc rs = sort_key (\<lambda>r. - int (created_at r)) rs"

definition selectFiles :: "int \<Rightarrow> int \<Rightarrow> database \<Rightarrow> file_row list" where
  \<comment> \<open>\<^verbatim>\<open>SELECT * FROM files ORDER BY created_at DESC LIMIT ? OFFSET ?\<close>. In SQLite a
      negative LIMIT is no limit and a negative OFFSET is 0.\<close>
  "selectFiles limit offset d =
     (let rest = drop (nat offset) (order_by_created_at_desc (files d))
      in if limit < 0 then rest else take (nat limit) rest)"

definition countFiles :: "database \<Rightarrow> int" where
  "countFiles d = int (length (files d))"

definition getFileById :: "int option \<Rightarrow> database \<Rightarrow> file_row option" where
  \<comment> \<open>\<^verbatim>\<open>SELECT * FROM files WHERE id = ?\<close>; \<^verbatim>\<open>NaN\<close> is bound as NULL, which equals no id\<close>
  "getFileById i d =
     (case i of None \<Rightarrow> None | Some n \<Rightarrow> find (\<lambda>r. file_id r = n) (files d))"

definition deleteFile :: "int option \<Rightarrow> database \<Rightarrow> database" where
  \<comment> \<open>\<^verbatim>\<open>DELETE FROM files WHERE id = ?\<close>\<close>
  "deleteFile i d =
     (case i of None \<Rightarrow> d | Some n \<Rightarrow> d\<lparr>files := filter (\<lambda>r. file_id r \<noteq> n) (files d)\<rparr>)"

definition updateFileStarred :: "nat \<Rightarrow> int option \<Rightarrow> database \<Rightarrow> database" where
  \<comment> \<open>\<^verbatim>\<open>UPDATE files SET starred = ? WHERE id = ?\<close>\<close>
  "updateFileStarred v i d =
     (case i of None \<Rightarrow> d
      | Some n \<Rightarrow> d\<lparr>files := map (\<lambda>r. if file_id r = n then r\<lparr>starred := v\<rparr> else r) (files d)\<rparr>)"

definition updateFileTrashed :: "nat \<Rightarrow> int option \<Rightarrow> database \<Rightarrow> database" where
  \<comment> \<open>\<^verbatim>\<open>UPDATE files SET trashed = ? WHERE id = ?\<close>\<close>
  "updateFileTrashed v i d =
     (case i of None \<Rightarrow> d
      | Some n \<Rightarrow> d\<lparr>files := map (\<lambda>r. if file_id r = n then r\<lparr>trashed := v\<rparr> else r) (files d)\<rparr>)"


section \<open>The blob store and the state of the service\<close>

text \<open>
  The S3 bucket is a map from keys to objects. Whether a request to it succeeds is decided
  outside the program, so each handler that sends one takes the outcome as an argument; a
  failed request leaves the bucket as it was. The state also keeps, in order, the commands
  sent to the bucket and the writing statements run on the table.
\<close>

datatype s3_outcome = S3Ok | S3Failed

record blob =
  blob_body :: string
  blob_type :: string

datatype effect =
    PutObject string s3_outcome
  | DeleteObject string s3_outcome
  | InsertFile string
  | DeleteFile "int option"
  | UpdateFileStarred nat "int option"
  | UpdateFileTrashed nat "int option"

record world =
  db :: database
  bucket :: "string \<rightharpoonup> blob"
  trace :: "effect list"

definition world_init :: world where
  "world_init = \<lparr>db = db_init, bucket = Map.empty, trace = []\<rparr>"

definition emit :: "effect list \<Rightarrow> world \<Rightarrow> world" where
  "emit es w = w\<lparr>trace := trace w @ es\<rparr>"


section \<open>Responses\<close>

record pagination =
  currentPage :: int
  totalItems :: int
  totalPages :: int
  itemsPerPage :: int
  hasNext :: bool
  hasPrev :: bool

text \<open>The object the upload route builds by hand for its 201 response; \<open>r_created_at\<close> is
  \<^verbatim>\<open>new Date().toISOString()\<close>, held as the milliseconds it denotes.\<close>

record upload_json =
  r_id :: int
  r_name :: string
  r_size :: nat
  r_content_type :: string
  r_s3_key :: string
  r_starred :: nat
  r_trashed :: nat
  r_created_at :: nat

datatype json =
    FileList "file_row list" pagination
  | Uploaded upload_json
  | DownloadInfo string string string
  | Message string
  | ErrorMsg string

record response =
  status :: nat
  payload :: json

definition respond :: "nat \<Rightarrow> json \<Rightarrow> response" where
  "respond st j = \<lparr>status = st, payload = j\<rparr>"


section \<open>The routes\<close>

definition list_handler :: "string option \<Rightarrow> string option \<Rightarrow> world \<Rightarrow> response \<times> world" where
  \<comment> \<open>\<^verbatim>\<open>GET /api/files?page&limit\<close>\<close>
  "list_handler qpage qlimit w =
     (let page = js_or (parseInt_query qpage) 1;
          limit = min (js_or (parseInt_query qlimit) 20) 100;
          offset = (page - 1) * limit;
          fs = selectFiles limit offset (db w);
          totalCount = countFiles (db w);
          tp = \<lceil>real_of_int totalCount / real_of_int limit\<rceil>
      in (respond 200 (FileList fs
            \<lparr>currentPage = page, totalItems = totalCount, totalPages = tp,
             itemsPerPage = limit, hasNext = (page < tp), hasPrev = (page > 1)\<rparr>), w))"

record uploaded_file =
  originalname :: string
  mimetype :: string
  size_bytes :: nat
  tmp_content :: string

text \<open>The three clock readings of one upload: \<^verbatim>\<open>Date.now()\<close> for the key (milliseconds),
  \<^verbatim>\<open>CURRENT_TIMESTAMP\<close> of the insert (seconds), \<^verbatim>\<open>new Date()\<close> of the response
  (milliseconds).\<close>

record clock =
  date_now :: nat
  current_timestamp :: nat
  response_date :: nat

definition s3Key :: "nat \<Rightarrow> string \<Rightarrow> string" where
  \<comment> \<open>\<^verbatim>\<open>`files/${Date.now()}-${originalname}`\<close>\<close>
  "s3Key now nm = ''files/'' @ decimal now @ ''-'' @ nm"

definition upload_handler ::
  "uploaded_file option \<Rightarrow> clock \<Rightarrow> s3_outcome \<Rightarrow> world \<Rightarrow> response \<times> world" where
  \<comment> \<open>\<^verbatim>\<open>POST /api/files\<close>, after multer has stored the file (\<open>None\<close>: the request had no
      file). Reading and unlinking the temporary file are taken to succeed; a rejected
      \<^verbatim>\<open>s3Client.send\<close> and a failing insert both end in the \<^verbatim>\<open>catch\<close>, which answers 500.\<close>
  "upload_handler reqfile clk put w =
     (case reqfile of
        None \<Rightarrow> (respond 400 (ErrorMsg ''No file uploaded''), w)
      | Some f \<Rightarrow>
          let key = s3Key (date_now clk) (originalname f) in
          (case put of
             S3Failed \<Rightarrow>
               (respond 500 (ErrorMsg ''Failed to upload file''), emit [PutObject key S3Failed] w)
           | S3Ok \<Rightarrow>
               let w1 = emit [PutObject key S3Ok]
                          (w\<lparr>bucket := (bucket w)(key \<mapsto>
                                \<lparr>blob_body = tmp_content f, blob_type = mimetype f\<rparr>)\<rparr>);
                   w2 = emit [InsertFile key] w1
               in (case insertFile (originalname f) (size_bytes f) (mimetype f) key
                          (current_timestamp clk) (db w1) of
                     Inl e \<Rightarrow> (respond 500 (ErrorMsg ''Failed to upload file''), w2)
                   | Inr (rid, d) \<Rightarrow>
                       (respond 201 (Uploaded
                          \<lparr>r_id = rid, r_name = originalname f, r_size = size_bytes f,
                           r_content_type = mimetype f, r_s3_key = key, r_starred = 0,
                           r_trashed = 0, r_created_at = response_date clk\<rparr>),
                        w2\<lparr>db := d\<rparr>))))"

definition not_found :: response where
  "not_found = respond 404 (ErrorMsg ''File not found'')"

definition download_handler ::
  "string \<Rightarrow> (string \<Rightarrow> string option) \<Rightarrow> world \<Rightarrow> response \<times> world" where
  \<comment> \<open>\<^verbatim>\<open>GET /api/files/:id/download\<close>; the second argument is \<^verbatim>\<open>getSignedUrl\<close>, \<open>None\<close>
      when its promise is rejected\<close>
  "download_handler p sign w =
     (let fileId = parseInt p in
      case getFileById fileId (db w) of
        None \<Rightarrow> (not_found, w)
      | Some f \<Rightarrow>
          (case sign (s3_key f) of
             None \<Rightarrow> (respond 500 (ErrorMsg ''Failed to generate download link''), w)
           | Some url \<Rightarrow> (respond 200 (DownloadInfo url (name f) (content_type f)), w)))"

definition star_handler :: "string \<Rightarrow> world \<Rightarrow> response \<times> world" where
  \<comment> \<open>\<^verbatim>\<open>POST /api/files/:id/star\<close>\<close>
  "star_handler p w =
     (let fileId = parseInt p in
      case getFileById fileId (db w) of
        None \<Rightarrow> (not_found, w)
      | Some f \<Rightarrow>
          (respond 200 (Message ''File starred''),
           emit [UpdateFileStarred 1 fileId] (w\<lparr>db := updateFileStarred 1 fileId (db w)\<rparr>)))"

definition unstar_handler :: "string \<Rightarrow> world \<Rightarrow> response \<times> world" where
  \<comment> \<open>\<^verbatim>\<open>POST /api/files/:id/unstar\<close>\<close>
  "unstar_handler p w =
     (let fileId = parseInt p in
      case getFileById fileId (db w) of
        None \<Rightarrow> (not_found, w)
      | Some f \<Rightarrow>
          (respond 200 (Message ''File unstarred''),
           emit [UpdateFileStarred 0 fileId] (w\<lparr>db := updateFileStarred 0 fileId (db w)\<rparr>)))"

definition trash_handler :: "string \<Rightarrow> world \<Rightarrow> response \<times> world" where
  \<comment> \<open>\<^verbatim>\<open>POST /api/files/:id/trash\<close>\<close>
  "trash_handler p w =
     (let fileId = parseInt p in
      case getFileById fileId (db w) of
        None \<Rightarrow> (not_found, w)
      | Some f \<Rightarrow>
          (respond 200 (Message ''File moved to trash''),
           emit [UpdateFileTrashed 1 fileId] (w\<lparr>db := updateFileTrashed 1 fileId (db w)\<rparr>)))"

definition restore_handler :: "string \<Rightarrow> world \<Rightarrow> response \<times> world" where
  \<comment> \<open>\<^verbatim>\<open>POST /api/files/:id/restore\<close>\<close>
  "restore_handler p w =
     (let fileId = parseInt p in
      case getFileById fileId (db w) of
        None \<Rightarrow> (not_found, w)
      | Some f \<Rightarrow>
          (respond 200 (Message ''File restored''),
           emit [UpdateFileTrashed 0 fileId] (w\<lparr>db := updateFileTrashed 0 fileId (db w)\<rparr>)))"

definition delete_handler :: "string \<Rightarrow> s3_outcome \<Rightarrow> world \<Rightarrow> response \<times> world" where
  \<comment> \<open>\<^verbatim>\<open>DELETE /api/files/:id\<close>: the row is deleted in the \<^verbatim>\<open>then\<close> of the S3 request\<close>
  "delete_handler p del w =
     (let fileId = parseInt p in
      case getFileById fileId (db w) of
        None \<Rightarrow> (not_found, w)
      | Some f \<Rightarrow>
          (case del of
             S3Ok \<Rightarrow>
               (respond 200 (Message ''File deleted permanently''),
                emit [DeleteObject (s3_key f) S3Ok, DeleteFile fileId]
                  (w\<lparr>bucket := (bucket w)(s3_key f := None),
                     db := deleteFile fileId (db w)\<rparr>))
           | S3Failed \<Rightarrow>
               (respond 500 (ErrorMsg ''Failed to delete file''),
                emit [DeleteObject (s3_key f) S3Failed] w)))"


section \<open>Sequences of requests\<close>

datatype request =
    ListFiles "string option" "string option"
  | UploadFile "uploaded_file option" clock s3_outcome
  | Download string "string \<Rightarrow> string option"
  | Star string
  | Unstar string
  | Trash string
  | Restore string
  | DeleteForever string s3_outcome

fun handle :: "request \<Rightarrow> world \<Rightarrow> response \<times> world" where
  "handle (ListFiles qpage qlimit) w = list_handler qpage qlimit w"
| "handle (UploadFile reqfile clk put) w = upload_handler reqfile clk put w"
| "handle (Download p sign) w = download_handler p sign w"
| "handle (Star p) w = star_handler p w"
| "handle (Unstar p) w = unstar_handler p w"
| "handle (Trash p) w = trash_handler p w"
| "handle (Restore p) w = restore_handler p w"
| "handle (DeleteForever p del) w = delete_handler p del w"

fun run :: "request list \<Rightarrow> world \<Rightarrow> world" where
  "run [] w = w"
| "run (rq # rqs) w = run rqs (snd (handle rq w))"

text \<open>What the table's constraints and \<^verbatim>\<open>AUTOINCREMENT\<close> maintain: ids are distinct (primary
  key), storage keys are distinct (\<^verbatim>\<open>UNIQUE\<close>), and no id exceeds the counter.\<close>

definition db_inv :: "database \<Rightarrow> bool" where
  "db_inv d =
     (distinct (map file_id (files d)) \<and> distinct (map s3_key (files d)) \<and>
      list_all (\<lambda>r. file_id r \<le> seq d) (files d))"

definition purged :: "int \<Rightarrow> database \<Rightarrow> bool" where
  \<comment> \<open>the id has been handed out and no row bears it\<close>
  "purged i d = (i \<le> seq d \<and> i \<notin> set (map file_id (files d)))"

definition blobs_present :: "world \<Rightarrow> bool" where
  \<comment> \<open>every row's storage key names an object of the bucket\<close>
  "blobs_present w = list_all (\<lambda>r. bucket w (s3_key r) \<noteq> None) (files (db w))"

definition response_files :: "response \<Rightarrow> file_row list" where
  \<comment> \<open>the \<^verbatim>\<open>files\<close> array of a list response\<close>
  "response_files r = (case payload r of FileList fs pg \<Rightarrow> fs | _ \<Rightarrow> [])"

definition response_pagination :: "response \<Rightarrow> pagination option" where
  "response_pagination r = (case payload r of FileList fs pg \<Rightarrow> Some pg | _ \<Rightarrow> None)"

definition page_files :: "nat \<Rightarrow> nat \<Rightarrow> world \<Rightarrow> file_row list" where
  \<comment> \<open>the records of \<^verbatim>\<open>GET /api/files?page=p&limit=l\<close>\<close>
  "page_files p l w = response_files (fst (list_handler (Some (decimal p)) (Some (decimal l)) w))"

definition page_count :: "nat \<Rightarrow> world \<Rightarrow> nat" where
  \<comment> \<open>\<open>ceil (N / l)\<close> for the \<open>N\<close> rows of the table\<close>
  "page_count l w = (length (files (db w)) + l - 1) div l"

definition all_pages :: "nat \<Rightarrow> world \<Rightarrow> file_row list" where
  \<comment> \<open>pages 1, 2, ..., \<open>ceil (N / l)\<close> one after the other\<close>
  "all_pages l w = concat (map (\<lambda>p. page_files p l w) [1 ..< Suc (page_count l w)])"


section \<open>The client's section filter\<close>

text \<open>\<^verbatim>\<open>filteredFiles\<close> of the React component (\<^verbatim>\<open>main.tsx\<close>, lines 281-296), over the rows
  the list route returned; \<open>starred\<close> and \<open>trashed\<close> arrive as the numbers 0 and 1 and are
  used for their truthiness.\<close>

definition toLowerCase :: "string \<Rightarrow> string" where
  "toLowerCase s =
     map (\<lambda>c. let k = (of_char c :: nat) in
               if (65 \<le> k \<and> k \<le> 90) \<or> (192 \<le> k \<and> k \<le> 222 \<and> k \<noteq> 215)
               then char_of (k + 32) else c) s"

definition truthy :: "nat \<Rightarrow> bool" where
  "truthy n = (n \<noteq> 0)"

definition matchesSearch :: "string \<Rightarrow> file_row \<Rightarrow> bool" where
  \<comment> \<open>\<^verbatim>\<open>file.name.toLowerCase().includes(searchTerm.toLowerCase())\<close>\<close>
  "matchesSearch searchTerm file = sublist (toLowerCase searchTerm) (toLowerCase (name file))"

definition filteredFiles :: "file_row list \<Rightarrow> string \<Rightarrow> string \<Rightarrow> file_row list" where
  "filteredFiles fs searchTerm section =
     filter (\<lambda>file.
        if section = ''My Drive'' then \<not> truthy (trashed file) \<and> matchesSearch searchTerm file
        else if section = ''Starred'' then
          \<not> truthy (trashed file) \<and> truthy (starred file) \<and> matchesSearch searchTerm file
        else if section = ''Trash'' then truthy (trashed file) \<and> matchesSearch searchTerm file
        else if section = ''Recent'' then \<not> truthy (trashed file) \<and> matchesSearch searchTerm file
        else False) fs"


section \<open>A concrete scenario\<close>

text \<open>The scenario of the specification: \<^verbatim>\<open>a.txt\<close>, \<^verbatim>\<open>text/plain\<close>, 10 bytes, uploaded into the
  empty service.\<close>

definition file_a :: uploaded_file where
  "file_a = \<lparr>originalname = ''a.txt'', mimetype = ''text/plain'', size_bytes = 10,
             tmp_content = ''0123456789''\<rparr>"

definition clock_a :: clock where
  "clock_a = \<lparr>date_now = 1700000000123, current_timestamp = 1700000000,
              response_date = 1700000000125\<rparr>"

definition world_a :: world where
  "world_a = snd (upload_handler (Some file_a) clock_a S3Ok world_init)"

definition row_a :: file_row where
  "row_a = \<lparr>file_id = 1, name = ''a.txt'', file_size = 10, content_type = ''text/plain'',
            s3_key = ''files/1700000000123-a.txt'', starred = 0, trashed = 0,
            created_at = 1700000000\<rparr>"

text \<open>A second file, uploaded two seconds later, and a table filled by \<open>n\<close> uploads, one per
  minute.\<close>

definition file_b :: uploaded_file where
  "file_b = \<lparr>originalname = ''b.png'', mimetype = ''image/png'', size_bytes = 3,
             tmp_content = ''png''\<rparr>"

definition clock_b :: clock where
  "clock_b = \<lparr>date_now = 1700000002123, current_timestamp = 1700000002,
              response_date = 1700000002125\<rparr>"

definition row_b :: file_row where
  "row_b = \<lparr>file_id = 2, name = ''b.png'', file_size = 3, content_type = ''image/png'',
            s3_key = ''files/1700000002123-b.png'', starred = 0, trashed = 0,
            created_at = 1700000002\<rparr>"

definition world_ab :: world where
  "world_ab = snd (upload_handler (Some file_b) clock_b S3Ok world_a)"

definition upload_n :: "nat \<Rightarrow> request" where
  "upload_n n = UploadFile (Some file_a)
     \<lparr>date_now = 60000 * n, current_timestamp = 60 * n, response_date = 60000 * n\<rparr> S3Ok"

definition world_n :: "nat \<Rightarrow> world" where
  "world_n n = run (map upload_n [1 ..< Suc n]) world_init"


section \<open>Basic facts about the model\<close>

subsection \<open>Lookup by id, digits\<close>

lemma getFileById_None_iff:
  "getFileById i d = None \<longleftrightarrow> (case i of None \<Rightarrow> True | Some n \<Rightarrow> n \<notin> file_id ` set (files d))"
  by (auto simp: getFileById_def find_None_iff split: option.splits)

lemma getFileById_SomeD:
  "getFileById i d = Some f \<Longrightarrow> i = Some (file_id f) \<and> f \<in> set (files d)"
  by (auto simp: getFileById_def find_Some_iff split: option.splits)

lemma digit_cases: "d < 10 \<Longrightarrow> d \<in> {0, 1, 2, 3, 4, 5, 6, 7, 8, 9::nat}"
  by auto

lemma digit_value_digit_char: "d < 10 \<Longrightarrow> digit_value (digit_char d) = Some d"
  by (drule digit_cases) (auto simp: digit_value_def digit_char_def)

lemma is_space_digit_char: "d < 10 \<Longrightarrow> \<not> is_space (digit_char d)"
  by (drule digit_cases) (auto simp: is_space_def digit_char_def)

lemma digit_char_not_sign:
  "d < 10 \<Longrightarrow> digit_char d \<noteq> CHR ''-'' \<and> digit_char d \<noteq> CHR ''+'' \<and>
     digit_char d \<noteq> CHR ''x'' \<and> digit_char d \<noteq> CHR ''X''"
  by (drule digit_cases) (auto simp: digit_char_def)

lemma digit_char_inj: "d < 10 \<Longrightarrow> e < 10 \<Longrightarrow> digit_char d = digit_char e \<Longrightarrow> d = e"
  using digit_value_digit_char by (metis option.inject)

subsection \<open>Decimal numerals, \<^verbatim>\<open>parseInt\<close> and the storage key\<close>

lemma decimal_digits: "c \<in> set (decimal n) \<Longrightarrow> \<exists>d<10. c = digit_char d"
proof (induction n arbitrary: c rule: decimal.induct)
  case (1 n)
  show ?case
  proof (cases "n < 10")
    case True
    with "1.prems" show ?thesis by (auto simp: decimal.simps [of n])
  next
    case False
    with "1.prems" have "c \<in> set (decimal (n div 10)) \<or> c = digit_char (n mod 10)"
      by (auto simp: decimal.simps [of n])
    then show ?thesis
    proof
      assume "c \<in> set (decimal (n div 10))"
      with "1.IH" False show ?thesis by blast
    next
      assume "c = digit_char (n mod 10)"
      then show ?thesis by (intro exI [of _ "n mod 10"]) simp
    qed
  qed
qed

lemma decimal_nonempty: "decimal n \<noteq> []"
  by (simp add: decimal.simps [of n])

lemma digits_value_snoc:
  "digits_value r (ds @ [c]) =
     digits_value r ds * r + (case digit_value c of None \<Rightarrow> 0 | Some d \<Rightarrow> d)"
  by (simp add: digits_value_def)

lemma digits_value_decimal: "digits_value 10 (decimal n) = n"
proof (induction n rule: decimal.induct)
  case (1 n)
  show ?case
  proof (cases "n < 10")
    case True
    then show ?thesis
      by (simp add: decimal.simps [of n] digits_value_def digit_value_digit_char)
  next
    case False
    with "1.IH" have "digits_value 10 (decimal (n div 10)) = n div 10" by simp
    with False show ?thesis
      by (simp add: decimal.simps [of n] digits_value_snoc digit_value_digit_char)
  qed
qed

lemma decimal_inj: "decimal a = decimal b \<Longrightarrow> a = b"
  by (metis digits_value_decimal)

lemma is_digit_decimal: "c \<in> set (decimal n) \<Longrightarrow> is_digit 10 c"
  by (auto dest!: decimal_digits simp: is_digit_def digit_value_digit_char)

lemma decimal_no_dash: "CHR ''-'' \<notin> set (decimal n)"
proof
  assume "CHR ''-'' \<in> set (decimal n)"
  then obtain d where "d < 10" "CHR ''-'' = digit_char d" using decimal_digits by blast
  then show False using digit_char_not_sign [of d] by simp
qed

lemma parseInt_decimal: "parseInt (decimal n) = Some (int n)"
proof -
  obtain c r where cr: "decimal n = c # r"
    using decimal_nonempty by (cases "decimal n") auto
  then have "c \<in> set (decimal n)" by simp
  then obtain d where d: "d < 10" "c = digit_char d"
    using decimal_digits by blast
  have nsp: "\<not> is_space c" using d is_space_digit_char by simp
  have nsg: "c \<noteq> CHR ''-''" "c \<noteq> CHR ''+''" using d digit_char_not_sign by auto
  have nhex: "(case c # r of a # b # _ \<Rightarrow> a = CHR ''0'' \<and> (b = CHR ''x'' \<or> b = CHR ''X'') | _ \<Rightarrow> False) = False"
  proof (cases r)
    case Nil
    then show ?thesis by simp
  next
    case (Cons b r')
    then have "b \<in> set (decimal n)" using cr by simp
    then obtain e where "e < 10" "b = digit_char e" using decimal_digits by blast
    then have "b \<noteq> CHR ''x''" "b \<noteq> CHR ''X''" using digit_char_not_sign by auto
    with Cons show ?thesis by simp
  qed
  have tw: "takeWhile (is_digit 10) (c # r) = c # r"
    using is_digit_decimal [of _ n] cr by (metis takeWhile_eq_all_conv)
  have "digits_value 10 (c # r) = n" using digits_value_decimal [of n] cr by simp
  then show ?thesis
    unfolding parseInt_def cr using nsp nsg nhex tw
    by (simp add: Let_def)
qed

lemma split_at_first:
  assumes "c \<notin> set xs" "c \<notin> set xs'" "xs @ c # ys = xs' @ c # ys'"
  shows "xs = xs' \<and> ys = ys'"
proof -
  have "takeWhile (\<lambda>x. x \<noteq> c) (xs @ c # ys) = xs"
    using assms(1) by (subst takeWhile_append2) auto
  moreover have "takeWhile (\<lambda>x. x \<noteq> c) (xs' @ c # ys') = xs'"
    using assms(2) by (subst takeWhile_append2) auto
  ultimately have "xs = xs'" using assms(3) by simp
  with assms(3) show ?thesis by simp
qed

lemma s3Key_inj: "s3Key a x = s3Key b y \<longleftrightarrow> a = b \<and> x = y"
proof
  assume "s3Key a x = s3Key b y"
  then have "decimal a @ CHR ''-'' # x = decimal b @ CHR ''-'' # y"
    unfolding s3Key_def by simp
  then have "decimal a = decimal b \<and> x = y"
    by (rule split_at_first [OF decimal_no_dash decimal_no_dash])
  then show "a = b \<and> x = y" using decimal_inj by blast
next
  assume "a = b \<and> x = y"
  then show "s3Key a x = s3Key b y" by simp
qed

subsection \<open>Pages of the list route\<close>

lemma js_or_decimal: "0 < p \<Longrightarrow> js_or (parseInt_query (Some (decimal p))) d = int p"
  by (simp add: js_or_def parseInt_query_def parseInt_decimal)

lemma page_files_eq:
  assumes "1 \<le> p" "1 \<le> l" "l \<le> 100"
  shows "page_files p l w = take l (drop ((p - 1) * l) (order_by_created_at_desc (files (db w))))"
proof -
  have "(int p - 1) * int l = int ((p - 1) * l)"
    using assms(1) by (simp add: of_nat_diff)
  then have off: "nat ((int p - 1) * int l) = (p - 1) * l"
    by (metis nat_int)
  have lim: "min (int l) 100 = int l" using assms(3) by simp
  show ?thesis
    using assms off lim
    by (simp add: page_files_def list_handler_def js_or_decimal response_files_def respond_def
        selectFiles_def Let_def)
qed

lemma concat_chunks:
  "concat (map (\<lambda>k. take l (drop (k * l) xs)) [0 ..< n]) = take (n * l) xs"
proof (induction n)
  case 0
  then show ?case by simp
next
  case (Suc n)
  have "take (n * l) xs @ take l (drop (n * l) xs) = take (n * l + l) xs"
    by (simp add: take_add)
  with Suc show ?case by (simp add: add.commute)
qed

lemma map_shift_upt: "map (\<lambda>p. f (p - 1)) [1 ..< Suc n] = map f [0 ..< n]"
  by (induction n) auto

lemma page_count_covers:
  fixes n l :: nat
  assumes l: "1 \<le> l"
  shows "n \<le> ((n + l - 1) div l) * l"
proof -
  have "(n + l - 1) mod l < l" using l by simp
  moreover have "((n + l - 1) div l) * l + (n + l - 1) mod l = n + l - 1" by simp
  ultimately show ?thesis by linarith
qed

lemma all_pages_eq:
  assumes "1 \<le> l" "l \<le> 100"
  shows "all_pages l w = order_by_created_at_desc (files (db w))"
proof -
  let ?xs = "order_by_created_at_desc (files (db w))"
  have "map (\<lambda>p. page_files p l w) [1 ..< Suc (page_count l w)] =
        map (\<lambda>p. take l (drop ((p - 1) * l) ?xs)) [1 ..< Suc (page_count l w)]"
    using assms by (intro map_cong refl page_files_eq) auto
  also have "\<dots> = map (\<lambda>k. take l (drop (k * l) ?xs)) [0 ..< page_count l w]"
    by (rule map_shift_upt)
  finally have "all_pages l w = take (page_count l w * l) ?xs"
    by (simp add: all_pages_def concat_chunks)
  moreover have "length ?xs \<le> page_count l w * l"
    using page_count_covers [OF assms(1)]
    by (simp add: page_count_def order_by_created_at_desc_def)
  ultimately show ?thesis by simp
qed

lemma sorted_desc_order_by:
  "sorted_wrt (\<lambda>a b. created_at b \<le> created_at a) (order_by_created_at_desc rs)"
proof -
  have "sorted (map (\<lambda>r. - int (created_at r)) (order_by_created_at_desc rs))"
    by (simp add: order_by_created_at_desc_def)
  then show ?thesis by (simp add: sorted_map)
qed

lemma page_count_ceiling:
  assumes "1 \<le> l"
  shows "int (page_count l w) = \<lceil>real (length (files (db w))) / real l\<rceil>"
proof -
  let ?n = "length (files (db w))"
  let ?pc = "(?n + l - 1) div l"
  have l: "0 < real l" using assms by simp
  have "?n \<le> ?pc * l" by (rule page_count_covers [OF assms])
  then have "real ?n \<le> real (?pc * l)" by (simp only: of_nat_le_iff)
  then have up: "real ?n / real l \<le> real ?pc"
    using l by (simp add: pos_divide_le_eq)
  have "?pc * l \<le> ?n + l - 1" by simp
  then have "?pc * l < ?n + l" using assms by linarith
  then have "real (?pc * l) < real (?n + l)" by (simp only: of_nat_less_iff)
  then have "(real ?pc - 1) * real l < real ?n" by (simp add: algebra_simps)
  then have lo: "real ?pc - 1 < real ?n / real l"
    using l by (simp add: pos_less_divide_eq)
  have "\<lceil>real ?n / real l\<rceil> = int ?pc"
    by (rule ceiling_unique) (use lo up in simp_all)
  then show ?thesis by (simp add: page_count_def)
qed

subsection \<open>The concrete scenario\<close>

lemma s3Key_a: "s3Key 1700000000123 ''a.txt'' = ''files/1700000000123-a.txt''"
  by (simp add: s3Key_def decimal.simps digit_char_def)

lemma upload_a:
  "upload_handler (Some file_a) clock_a S3Ok world_init =
     (respond 201 (Uploaded \<lparr>r_id = 1, r_name = ''a.txt'', r_size = 10,
        r_content_type = ''text/plain'', r_s3_key = ''files/1700000000123-a.txt'',
        r_starred = 0, r_trashed = 0, r_created_at = 1700000000125\<rparr>),
      \<lparr>db = \<lparr>files = [row_a], seq = 1\<rparr>,
       bucket = [''files/1700000000123-a.txt'' \<mapsto>
                  \<lparr>blob_body = ''0123456789'', blob_type = ''text/plain''\<rparr>],
       trace = [PutObject ''files/1700000000123-a.txt'' S3Ok,
                InsertFile ''files/1700000000123-a.txt'']\<rparr>)"
  by (simp add: upload_handler_def file_a_def clock_a_def world_init_def db_init_def s3Key_a
      emit_def insertFile_def next_rowid_def row_a_def Let_def)

lemma db_world_a: "db world_a = \<lparr>files = [row_a], seq = 1\<rparr>"
  by (simp add: world_a_def upload_a)

lemma get_world_a: "getFileById (Some 1) (db world_a) = Some row_a"
  by (simp add: db_world_a getFileById_def row_a_def)

lemma parse_1: "parseInt ''1'' = Some 1"
  by (simp add: parseInt_def is_space_def is_digit_def digit_value_def digits_value_def)


section \<open>Upload: the blob is written before the row\<close>

text \<open>
  C1. The upload route sends the object to the bucket before it runs the insert. When the
  bucket rejects the object, the route answers 500, the table is unchanged and so is every
  list response; no insert is run. When the bucket accepts it, the insert follows the
  write in the order of effects.
\<close>

theorem upload_blob_write_first:
  "upload_handler (Some f) clk S3Failed w =
     (respond 500 (ErrorMsg ''Failed to upload file''),
      emit [PutObject (s3Key (date_now clk) (originalname f)) S3Failed] w) \<and>
   db (snd (upload_handler (Some f) clk S3Failed w)) = db w \<and>
   fst (list_handler qpage qlimit (snd (upload_handler (Some f) clk S3Failed w))) =
     fst (list_handler qpage qlimit w) \<and>
   trace (snd (upload_handler (Some f) clk S3Ok w)) =
     trace w @ [PutObject (s3Key (date_now clk) (originalname f)) S3Ok,
                InsertFile (s3Key (date_now clk) (originalname f))]"
  by (simp add: upload_handler_def emit_def list_handler_def Let_def split: sum.splits)


section \<open>Permanent delete: the blob goes before the row\<close>

lemma emit_sel [simp]:
  "db (emit es w) = db w" "bucket (emit es w) = bucket w" "trace (emit es w) = trace w @ es"
  by (simp_all add: emit_def)

lemma find_unique_id:
  assumes "find (\<lambda>r. file_id r = n) rs = Some f" "distinct (map file_id rs)"
    "r \<in> set rs" "file_id r = n"
  shows "r = f"
proof -
  from assms(1) have "f \<in> set rs" "file_id f = n"
    by (auto simp: find_Some_iff)
  moreover from assms(2) have "inj_on file_id (set rs)"
    by (simp add: distinct_map)
  ultimately show ?thesis using assms(3,4) by (auto dest: inj_onD)
qed

lemma getFileById_unique:
  assumes "getFileById i d = Some f" "distinct (map file_id (files d))"
    "r \<in> set (files d)" "i = Some (file_id r)"
  shows "r = f"
  using assms by (auto simp: getFileById_def intro: find_unique_id)

lemma getFileById_deleteFile: "getFileById i (deleteFile i d) = None"
  by (cases i) (auto simp: getFileById_def deleteFile_def find_None_iff)

lemma blobs_present_delete:
  assumes f: "getFileById i (db w) = Some f" and inv: "db_inv (db w)" and bp: "blobs_present w"
  shows "blobs_present (w\<lparr>bucket := (bucket w)(s3_key f := None), db := deleteFile i (db w), trace := t\<rparr>)"
proof -
  from f obtain n where i: "i = Some n" and fn: "file_id f = n" and fin: "f \<in> set (files (db w))"
    by (auto dest: getFileById_SomeD)
  from inv have inj: "inj_on s3_key (set (files (db w)))"
    by (simp add: db_inv_def distinct_map)
  have "bucket w (s3_key r) \<noteq> None \<and> s3_key r \<noteq> s3_key f"
    if "r \<in> set (files (db w))" "file_id r \<noteq> n" for r
  proof -
    from that fn have "r \<noteq> f" by auto
    with inj that(1) fin have "s3_key r \<noteq> s3_key f" by (auto dest: inj_onD)
    moreover from bp that(1) have "bucket w (s3_key r) \<noteq> None"
      by (simp add: blobs_present_def list_all_iff)
    ultimately show ?thesis by simp
  qed
  then show ?thesis
    by (auto simp: blobs_present_def list_all_iff deleteFile_def i)
qed

text \<open>
  C2. For a request whose id names an existing row, the delete route asks the bucket to
  delete the object first. If that fails, the route answers 500 and the table is unchanged
  (only the failed command is recorded). If it succeeds, the row is deleted after it, the
  object is gone from the bucket and the id no longer resolves. With distinct storage keys,
  a state in which every row's key names an object of the bucket stays such a state, whatever
  the outcome: the table never refers to an object that was deleted.
\<close>

theorem purge_blob_then_row:
  assumes "getFileById (parseInt p) (db w) = Some f"
  shows "delete_handler p S3Failed w =
           (respond 500 (ErrorMsg ''Failed to delete file''),
            emit [DeleteObject (s3_key f) S3Failed] w) \<and>
         db (snd (delete_handler p S3Failed w)) = db w \<and>
         fst (delete_handler p S3Ok w) = respond 200 (Message ''File deleted permanently'') \<and>
         trace (snd (delete_handler p S3Ok w)) =
           trace w @ [DeleteObject (s3_key f) S3Ok, DeleteFile (parseInt p)] \<and>
         bucket (snd (delete_handler p S3Ok w)) (s3_key f) = None \<and>
         getFileById (parseInt p) (db (snd (delete_handler p S3Ok w))) = None \<and>
         (db_inv (db w) \<and> blobs_present w \<longrightarrow> blobs_present (snd (delete_handler p del w)))"
proof -
  have "blobs_present (snd (delete_handler p del w))" if "db_inv (db w)" "blobs_present w"
  proof (cases del)
    case S3Ok
    then show ?thesis
      using blobs_present_delete [OF assms that] assms
      by (simp add: delete_handler_def emit_def Let_def)
  next
    case S3Failed
    with that(2) assms show ?thesis
      by (simp add: delete_handler_def emit_def blobs_present_def Let_def)
  qed
  with assms show ?thesis
    by (simp add: delete_handler_def emit_def getFileById_deleteFile Let_def)
qed

lemma db_inv_world_a: "db_inv (db world_a)"
  by (simp add: db_world_a db_inv_def row_a_def)

lemma blobs_present_world_a: "blobs_present world_a"
  by (simp add: world_a_def upload_a blobs_present_def row_a_def)

theorem purge_blob_then_row_witness:
  "getFileById (parseInt ''1'') (db world_a) = Some row_a \<and>
   db_inv (db world_a) \<and> blobs_present world_a \<and>
   db (snd (delete_handler ''1'' S3Failed world_a)) = db world_a \<and>
   status (fst (delete_handler ''1'' S3Failed world_a)) = 500 \<and>
   status (fst (delete_handler ''1'' S3Ok world_a)) = 200 \<and>
   files (db (snd (delete_handler ''1'' S3Ok world_a))) = [] \<and>
   blobs_present (snd (delete_handler ''1'' S3Ok world_a))"
proof -
  have g: "getFileById (parseInt ''1'') (db world_a) = Some row_a"
    by (simp add: parse_1 get_world_a)
  have "files (db (snd (delete_handler ''1'' S3Ok world_a))) =
        files (deleteFile (Some 1) (db world_a))"
    by (simp add: delete_handler_def parse_1 get_world_a emit_def Let_def)
  also have "\<dots> = []"
    by (simp add: deleteFile_def db_world_a row_a_def)
  finally have d: "files (db (snd (delete_handler ''1'' S3Ok world_a))) = []" .
  show ?thesis
    using purge_blob_then_row [OF g, of S3Ok] g d db_inv_world_a blobs_present_world_a
    by (simp add: respond_def)
qed

section \<open>Star, unstar, trash, restore are idempotent\<close>

lemma list_handler_db_cong:
  "db w = db w' \<Longrightarrow> fst (list_handler qpage qlimit w) = fst (list_handler qpage qlimit w')"
  by (simp add: list_handler_def Let_def)

lemma ids_updateFileStarred [simp]:
  "map file_id (files (updateFileStarred v i d)) = map file_id (files d)"
  by (cases i) (simp_all add: updateFileStarred_def comp_def)

lemma ids_updateFileTrashed [simp]:
  "map file_id (files (updateFileTrashed v i d)) = map file_id (files d)"
  by (cases i) (simp_all add: updateFileTrashed_def comp_def)

lemma getFileById_None_ids:
  "getFileById i d = None \<longleftrightarrow> (\<forall>n. i = Some n \<longrightarrow> n \<notin> set (map file_id (files d)))"
  by (cases i) (auto simp: getFileById_None_iff)

lemma getFileById_updateFileStarred:
  "getFileById i (updateFileStarred v j d) = None \<longleftrightarrow> getFileById i d = None"
  by (simp only: getFileById_None_ids ids_updateFileStarred)

lemma getFileById_updateFileTrashed:
  "getFileById i (updateFileTrashed v j d) = None \<longleftrightarrow> getFileById i d = None"
  by (simp only: getFileById_None_ids ids_updateFileTrashed)

lemma updateFileStarred_idem:
  "updateFileStarred v i (updateFileStarred v i d) = updateFileStarred v i d"
  by (cases i) (auto simp: updateFileStarred_def)

lemma updateFileTrashed_idem:
  "updateFileTrashed v i (updateFileTrashed v i d) = updateFileTrashed v i d"
  by (cases i) (auto simp: updateFileTrashed_def)

lemma updateFileStarred_noop:
  assumes "getFileById i d = Some f" "distinct (map file_id (files d))" "starred f = v"
  shows "updateFileStarred v i d = d"
proof -
  from assms(1) obtain n where i: "i = Some n" by (auto dest: getFileById_SomeD)
  have "(if file_id r = n then r\<lparr>starred := v\<rparr> else r) = r" if "r \<in> set (files d)" for r
    using getFileById_unique [OF assms(1,2) that] assms(3) i by auto
  then have "map (\<lambda>r. if file_id r = n then r\<lparr>starred := v\<rparr> else r) (files d) = files d"
    by (intro map_idI) simp
  then show ?thesis by (simp add: updateFileStarred_def i)
qed

lemma updateFileTrashed_noop:
  assumes "getFileById i d = Some f" "distinct (map file_id (files d))" "trashed f = v"
  shows "updateFileTrashed v i d = d"
proof -
  from assms(1) obtain n where i: "i = Some n" by (auto dest: getFileById_SomeD)
  have "(if file_id r = n then r\<lparr>trashed := v\<rparr> else r) = r" if "r \<in> set (files d)" for r
    using getFileById_unique [OF assms(1,2) that] assms(3) i by auto
  then have "map (\<lambda>r. if file_id r = n then r\<lparr>trashed := v\<rparr> else r) (files d) = files d"
    by (intro map_idI) simp
  then show ?thesis by (simp add: updateFileTrashed_def i)
qed

lemma star_twice:
  assumes "getFileById (parseInt p) (db w) = Some f"
  shows "fst (star_handler p w) = respond 200 (Message ''File starred'') \<and>
         fst (star_handler p (snd (star_handler p w))) = fst (star_handler p w) \<and>
         db (snd (star_handler p (snd (star_handler p w)))) = db (snd (star_handler p w)) \<and>
         db (snd (star_handler p w)) = updateFileStarred 1 (parseInt p) (db w)"
proof -
  have 1: "star_handler p w =
      (respond 200 (Message ''File starred''),
       emit [UpdateFileStarred 1 (parseInt p)] (w\<lparr>db := updateFileStarred 1 (parseInt p) (db w)\<rparr>))"
    using assms by (simp add: star_handler_def Let_def)
  have "getFileById (parseInt p) (updateFileStarred 1 (parseInt p) (db w)) \<noteq> None"
    using assms by (simp add: getFileById_updateFileStarred)
  then obtain g where "getFileById (parseInt p) (updateFileStarred 1 (parseInt p) (db w)) = Some g"
    by blast
  then show ?thesis
    unfolding 1 by (simp add: star_handler_def Let_def updateFileStarred_idem)
qed

lemma unstar_twice:
  assumes "getFileById (parseInt p) (db w) = Some f"
  shows "fst (unstar_handler p w) = respond 200 (Message ''File unstarred'') \<and>
         fst (unstar_handler p (snd (unstar_handler p w))) = fst (unstar_handler p w) \<and>
         db (snd (unstar_handler p (snd (unstar_handler p w)))) = db (snd (unstar_handler p w)) \<and>
         db (snd (unstar_handler p w)) = updateFileStarred 0 (parseInt p) (db w)"
proof -
  have 1: "unstar_handler p w =
      (respond 200 (Message ''File unstarred''),
       emit [UpdateFileStarred 0 (parseInt p)] (w\<lparr>db := updateFileStarred 0 (parseInt p) (db w)\<rparr>))"
    using assms by (simp add: unstar_handler_def Let_def)
  have "getFileById (parseInt p) (updateFileStarred 0 (parseInt p) (db w)) \<noteq> None"
    using assms by (simp add: getFileById_updateFileStarred)
  then obtain g where "getFileById (parseInt p) (updateFileStarred 0 (parseInt p) (db w)) = Some g"
    by blast
  then show ?thesis
    unfolding 1 by (simp add: unstar_handler_def Let_def updateFileStarred_idem)
qed

lemma trash_twice:
  assumes "getFileById (parseInt p) (db w) = Some f"
  shows "fst (trash_handler p w) = respond 200 (Message ''File moved to trash'') \<and>
         fst (trash_handler p (snd (trash_handler p w))) = fst (trash_handler p w) \<and>
         db (snd (trash_handler p (snd (trash_handler p w)))) = db (snd (trash_handler p w)) \<and>
         db (snd (trash_handler p w)) = updateFileTrashed 1 (parseInt p) (db w)"
proof -
  have 1: "trash_handler p w =
      (respond 200 (Message ''File moved to trash''),
       emit [UpdateFileTrashed 1 (parseInt p)] (w\<lparr>db := updateFileTrashed 1 (parseInt p) (db w)\<rparr>))"
    using assms by (simp add: trash_handler_def Let_def)
  have "getFileById (parseInt p) (updateFileTrashed 1 (parseInt p) (db w)) \<noteq> None"
    using assms by (simp add: getFileById_updateFileTrashed)
  then obtain g where "getFileById (parseInt p) (updateFileTrashed 1 (parseInt p) (db w)) = Some g"
    by blast
  then show ?thesis
    unfolding 1 by (simp add: trash_handler_def Let_def updateFileTrashed_idem)
qed

lemma restore_twice:
  assumes "getFileById (parseInt p) (db w) = Some f"
  shows "fst (restore_handler p w) = respond 200 (Message ''File restored'') \<and>
         fst (restore_handler p (snd (restore_handler p w))) = fst (restore_handler p w) \<and>
         db (snd (restore_handler p (snd (restore_handler p w)))) = db (snd (restore_handler p w)) \<and>
         db (snd (restore_handler p w)) = updateFileTrashed 0 (parseInt p) (db w)"
proof -
  have 1: "restore_handler p w =
      (respond 200 (Message ''File restored''),
       emit [UpdateFileTrashed 0 (parseInt p)] (w\<lparr>db := updateFileTrashed 0 (parseInt p) (db w)\<rparr>))"
    using assms by (simp add: restore_handler_def Let_def)
  have "getFileById (parseInt p) (updateFileTrashed 0 (parseInt p) (db w)) \<noteq> None"
    using assms by (simp add: getFileById_updateFileTrashed)
  then obtain g where "getFileById (parseInt p) (updateFileTrashed 0 (parseInt p) (db w)) = Some g"
    by blast
  then show ?thesis
    unfolding 1 by (simp add: restore_handler_def Let_def updateFileTrashed_idem)
qed

text \<open>
  C7. For a request whose id names an existing row, each of the four flag routes answers
  200, and applying it a second time gives the same answer, the same table and the same list
  responses as applying it once. When the row's flag already has the value the route sets,
  the table is unchanged.
\<close>

theorem flag_ops_idempotent:
  assumes f: "getFileById (parseInt p) (db w) = Some f"
    and ids: "distinct (map file_id (files (db w)))"
  shows "(status (fst (star_handler p w)) = 200 \<and>
          fst (star_handler p (snd (star_handler p w))) = fst (star_handler p w) \<and>
          db (snd (star_handler p (snd (star_handler p w)))) = db (snd (star_handler p w)) \<and>
          fst (list_handler qpage qlimit (snd (star_handler p (snd (star_handler p w))))) =
            fst (list_handler qpage qlimit (snd (star_handler p w))) \<and>
          (starred f = 1 \<longrightarrow> db (snd (star_handler p w)) = db w)) \<and>
         (status (fst (unstar_handler p w)) = 200 \<and>
          fst (unstar_handler p (snd (unstar_handler p w))) = fst (unstar_handler p w) \<and>
          db (snd (unstar_handler p (snd (unstar_handler p w)))) = db (snd (unstar_handler p w)) \<and>
          fst (list_handler qpage qlimit (snd (unstar_handler p (snd (unstar_handler p w))))) =
            fst (list_handler qpage qlimit (snd (unstar_handler p w))) \<and>
          (starred f = 0 \<longrightarrow> db (snd (unstar_handler p w)) = db w)) \<and>
         (status (fst (trash_handler p w)) = 200 \<and>
          fst (trash_handler p (snd (trash_handler p w))) = fst (trash_handler p w) \<and>
          db (snd (trash_handler p (snd (trash_handler p w)))) = db (snd (trash_handler p w)) \<and>
          fst (list_handler qpage qlimit (snd (trash_handler p (snd (trash_handler p w))))) =
            fst (list_handler qpage qlimit (snd (trash_handler p w))) \<and>
          (trashed f = 1 \<longrightarrow> db (snd (trash_handler p w)) = db w)) \<and>
         (status (fst (restore_handler p w)) = 200 \<and>
          fst (restore_handler p (snd (restore_handler p w))) = fst (restore_handler p w) \<and>
          db (snd (restore_handler p (snd (restore_handler p w)))) = db (snd (restore_handler p w)) \<and>
          fst (list_handler qpage qlimit (snd (restore_handler p (snd (restore_handler p w))))) =
            fst (list_handler qpage qlimit (snd (restore_handler p w))) \<and>
          (trashed f = 0 \<longrightarrow> db (snd (restore_handler p w)) = db w))"
proof (intro conjI)
  note s = star_twice [OF f] and u = unstar_twice [OF f]
    and t = trash_twice [OF f] and r = restore_twice [OF f]
  show "status (fst (star_handler p w)) = 200" using s by (simp add: respond_def)
  show "status (fst (unstar_handler p w)) = 200" using u by (simp add: respond_def)
  show "status (fst (trash_handler p w)) = 200" using t by (simp add: respond_def)
  show "status (fst (restore_handler p w)) = 200" using r by (simp add: respond_def)
  show "fst (star_handler p (snd (star_handler p w))) = fst (star_handler p w)" using s by blast
  show "fst (unstar_handler p (snd (unstar_handler p w))) = fst (unstar_handler p w)" using u by blast
  show "fst (trash_handler p (snd (trash_handler p w))) = fst (trash_handler p w)" using t by blast
  show "fst (restore_handler p (snd (restore_handler p w))) = fst (restore_handler p w)" using r by blast
  show "db (snd (star_handler p (snd (star_handler p w)))) = db (snd (star_handler p w))" using s by blast
  then show "fst (list_handler qpage qlimit (snd (star_handler p (snd (star_handler p w))))) =
            fst (list_handler qpage qlimit (snd (star_handler p w)))"
    by (rule list_handler_db_cong)
  show "db (snd (unstar_handler p (snd (unstar_handler p w)))) = db (snd (unstar_handler p w))" using u by blast
  then show "fst (list_handler qpage qlimit (snd (unstar_handler p (snd (unstar_handler p w))))) =
            fst (list_handler qpage qlimit (snd (unstar_handler p w)))"
    by (rule list_handler_db_cong)
  show "db (snd (trash_handler p (snd (trash_handler p w)))) = db (snd (trash_handler p w))" using t by blast
  then show "fst (list_handler qpage qlimit (snd (trash_handler p (snd (trash_handler p w))))) =
            fst (list_handler qpage qlimit (snd (trash_handler p w)))"
    by (rule list_handler_db_cong)
  show "db (snd (restore_handler p (snd (restore_handler p w)))) = db (snd (restore_handler p w))" using r by blast
  then show "fst (list_handler qpage qlimit (snd (restore_handler p (snd (restore_handler p w))))) =
            fst (list_handler qpage qlimit (snd (restore_handler p w)))"
    by (rule list_handler_db_cong)
  show "starred f = 1 \<longrightarrow> db (snd (star_handler p w)) = db w"
    using s updateFileStarred_noop [where v = 1, OF f ids] by simp
  show "starred f = 0 \<longrightarrow> db (snd (unstar_handler p w)) = db w"
    using u updateFileStarred_noop [where v = 0, OF f ids] by simp
  show "trashed f = 1 \<longrightarrow> db (snd (trash_handler p w)) = db w"
    using t updateFileTrashed_noop [where v = 1, OF f ids] by simp
  show "trashed f = 0 \<longrightarrow> db (snd (restore_handler p w)) = db w"
    using r updateFileTrashed_noop [where v = 0, OF f ids] by simp
qed

theorem flag_ops_idempotent_witness:
  "getFileById (parseInt ''1'') (db world_a) = Some row_a \<and>
   distinct (map file_id (files (db world_a))) \<and>
   starred row_a = 0 \<and> trashed row_a = 0 \<and>
   status (fst (star_handler ''1'' world_a)) = 200 \<and>
   db (snd (star_handler ''1'' (snd (star_handler ''1'' world_a)))) =
     db (snd (star_handler ''1'' world_a)) \<and>
   db (snd (trash_handler ''1'' (snd (trash_handler ''1'' world_a)))) =
     db (snd (trash_handler ''1'' world_a)) \<and>
   db (snd (unstar_handler ''1'' world_a)) = db world_a \<and>
   db (snd (restore_handler ''1'' world_a)) = db world_a"
proof -
  have g: "getFileById (parseInt ''1'') (db world_a) = Some row_a"
    by (simp add: parse_1 get_world_a)
  have d: "distinct (map file_id (files (db world_a)))"
    by (simp add: db_world_a)
  have z: "starred row_a = 0" "trashed row_a = 0" by (simp_all add: row_a_def)
  show ?thesis
    using flag_ops_idempotent [OF g d] g d z by simp
qed

section \<open>Unknown ids\<close>

text \<open>
  C10. On each of the six routes addressed by an id, a path parameter that parses to
  \<^verbatim>\<open>NaN\<close>, or to a number that is the id of no row, is answered with 404 and leaves the
  whole state as it was.
\<close>

theorem id_routes_not_found:
  assumes "parseInt p = None \<or> (\<exists>n. parseInt p = Some n \<and> n \<notin> file_id ` set (files (db w)))"
  shows "download_handler p sign w = (not_found, w) \<and>
         star_handler p w = (not_found, w) \<and>
         unstar_handler p w = (not_found, w) \<and>
         trash_handler p w = (not_found, w) \<and>
         restore_handler p w = (not_found, w) \<and>
         delete_handler p del w = (not_found, w) \<and>
         status not_found = 404"
proof -
  from assms have "getFileById (parseInt p) (db w) = None"
    by (auto simp: getFileById_None_iff)
  then show ?thesis
    by (simp add: download_handler_def star_handler_def unstar_handler_def trash_handler_def
        restore_handler_def delete_handler_def not_found_def respond_def)
qed



theorem id_routes_not_found_witness:
  "parseInt ''abc'' = None \<and>
   download_handler ''abc'' (\<lambda>k. Some k) world_a = (not_found, world_a) \<and>
   star_handler ''abc'' world_a = (not_found, world_a) \<and>
   delete_handler ''abc'' S3Ok world_a = (not_found, world_a) \<and>
   status not_found = 404"
proof -
  have "parseInt ''abc'' = None"
    by (simp add: parseInt_def is_space_def is_digit_def digit_value_def)
  then show ?thesis
    using id_routes_not_found [of "''abc''" world_a "\<lambda>k. Some k" S3Ok] by simp
qed

section \<open>A purged id stays purged\<close>

lemma fold_max_ge: "(s::int) \<le> fold max xs s"
proof (induction xs arbitrary: s)
  case Nil
  then show ?case by simp
next
  case (Cons x xs)
  have "s \<le> max x s" by simp
  also have "\<dots> \<le> fold max xs (max x s)" by (rule Cons.IH)
  finally show ?case by simp
qed

lemma fold_max_ge_elem: "x \<in> set xs \<Longrightarrow> (x::int) \<le> fold max xs s"
proof (induction xs arbitrary: s)
  case Nil
  then show ?case by simp
next
  case (Cons y ys)
  show ?case
  proof (cases "x = y")
    case True
    have "x \<le> max y s" using True by simp
    also have "\<dots> \<le> fold max ys (max y s)" by (rule fold_max_ge)
    finally show ?thesis by simp
  next
    case False
    with Cons.prems have "x \<in> set ys" by simp
    then show ?thesis using Cons.IH by simp
  qed
qed

lemma next_rowid_fresh:
  "seq d < next_rowid d" "r \<in> set (files d) \<Longrightarrow> file_id r < next_rowid d"
proof -
  show "seq d < next_rowid d"
    using fold_max_ge [of "seq d" "map file_id (files d)"] by (simp add: next_rowid_def)
  show "file_id r < next_rowid d" if "r \<in> set (files d)"
    using fold_max_ge_elem [of "file_id r" "map file_id (files d)" "seq d"] that
    by (simp add: next_rowid_def)
qed

lemma insertFile_Inr:
  assumes "insertFile nm sz ct key now d = Inr (rid, d')"
  shows "key \<notin> set (map s3_key (files d))" "rid = next_rowid d" "seq d' = rid"
    "files d' = files d @ [\<lparr>file_id = rid, name = nm, file_size = sz, content_type = ct,
        s3_key = key, starred = 0, trashed = 0, created_at = now\<rparr>]"
  using assms by (auto simp: insertFile_def Let_def split: if_splits)

lemma db_inv_insertFile:
  assumes "insertFile nm sz ct key now d = Inr (rid, d')" "db_inv d"
  shows "db_inv d'"
proof -
  note i = insertFile_Inr [OF assms(1)]
  have lt: "file_id r < rid" if "r \<in> set (files d)" for r
    using next_rowid_fresh(2) [OF that] i(2) by simp
  then have "rid \<notin> file_id ` set (files d)" by auto
  moreover have "list_all (\<lambda>r. file_id r \<le> rid) (files d)"
    using lt by (auto simp: list_all_iff intro: less_imp_le)
  ultimately show ?thesis
    using assms(2) i by (simp add: db_inv_def)
qed

lemma purged_insertFile:
  assumes "insertFile nm sz ct key now d = Inr (rid, d')" "purged i d"
  shows "purged i d'"
proof -
  note i = insertFile_Inr [OF assms(1)]
  have "seq d < rid" using next_rowid_fresh(1) [of d] i(2) by simp
  with assms(2) i show ?thesis by (auto simp: purged_def)
qed

lemma db_inv_deleteFile: "db_inv d \<Longrightarrow> db_inv (deleteFile i d)"
  by (cases i) (auto simp: db_inv_def deleteFile_def distinct_map_filter list_all_iff)

lemma purged_deleteFile: "purged i d \<Longrightarrow> purged i (deleteFile j d)"
  by (cases j) (auto simp: purged_def deleteFile_def)

lemma keys_updateFileStarred [simp]:
  "map s3_key (files (updateFileStarred v i d)) = map s3_key (files d)"
  by (cases i) (simp_all add: updateFileStarred_def comp_def)

lemma keys_updateFileTrashed [simp]:
  "map s3_key (files (updateFileTrashed v i d)) = map s3_key (files d)"
  by (cases i) (simp_all add: updateFileTrashed_def comp_def)

lemma seq_update [simp]:
  "seq (updateFileStarred v i d) = seq d" "seq (updateFileTrashed v i d) = seq d"
  by (cases i; simp add: updateFileStarred_def updateFileTrashed_def)+

lemma list_all_ids:
  "list_all (\<lambda>r. file_id r \<le> s) rs \<longleftrightarrow> (\<forall>n \<in> set (map file_id rs). n \<le> s)"
  by (auto simp: list_all_iff)

lemma db_inv_update:
  "db_inv d \<Longrightarrow> db_inv (updateFileStarred v i d)" "db_inv d \<Longrightarrow> db_inv (updateFileTrashed v i d)"
  by (simp_all add: db_inv_def list_all_ids del: set_map)

lemma purged_update:
  "purged n d \<Longrightarrow> purged n (updateFileStarred v i d)"
  "purged n d \<Longrightarrow> purged n (updateFileTrashed v i d)"
  by (simp_all add: purged_def del: set_map)

lemma db_upload_cases:
  "db (snd (upload_handler reqfile clk put w)) = db w \<or>
   (\<exists>f rid. reqfile = Some f \<and>
      insertFile (originalname f) (size_bytes f) (mimetype f)
        (s3Key (date_now clk) (originalname f)) (current_timestamp clk) (db w) =
          Inr (rid, db (snd (upload_handler reqfile clk put w))))"
  by (cases reqfile; cases put)
     (auto simp: upload_handler_def Let_def split: sum.splits)

lemma db_handle_cases:
  "db (snd (handle rq w)) = db w \<or>
   (\<exists>nm sz ct key now rid. insertFile nm sz ct key now (db w) = Inr (rid, db (snd (handle rq w)))) \<or>
   (\<exists>i. db (snd (handle rq w)) = deleteFile i (db w)) \<or>
   (\<exists>v i. db (snd (handle rq w)) = updateFileStarred v i (db w)) \<or>
   (\<exists>v i. db (snd (handle rq w)) = updateFileTrashed v i (db w))"
proof (cases rq)
  case (ListFiles qp ql)
  then show ?thesis by (simp add: list_handler_def Let_def)
next
  case (UploadFile reqfile clk put)
  then show ?thesis using db_upload_cases [of reqfile clk put w] by auto
next
  case (Download p sign)
  then show ?thesis by (simp add: download_handler_def Let_def split: option.splits)
next
  case (Star p)
  then show ?thesis by (auto simp: star_handler_def Let_def split: option.splits)
next
  case (Unstar p)
  then show ?thesis by (auto simp: unstar_handler_def Let_def split: option.splits)
next
  case (Trash p)
  then show ?thesis by (auto simp: trash_handler_def Let_def split: option.splits)
next
  case (Restore p)
  then show ?thesis by (auto simp: restore_handler_def Let_def split: option.splits)
next
  case (DeleteForever p del)
  then show ?thesis
    by (cases del) (auto simp: delete_handler_def Let_def split: option.splits)
qed

lemma db_inv_handle: "db_inv (db w) \<Longrightarrow> db_inv (db (snd (handle rq w)))"
  using db_handle_cases [of rq w]
  by (auto intro: db_inv_insertFile db_inv_deleteFile db_inv_update)

lemma purged_handle: "purged n (db w) \<Longrightarrow> purged n (db (snd (handle rq w)))"
  using db_handle_cases [of rq w]
  by (auto intro: purged_insertFile purged_deleteFile purged_update)

lemma db_inv_run: "db_inv (db w) \<Longrightarrow> db_inv (db (run rqs w))"
  by (induction rqs arbitrary: w) (auto intro: db_inv_handle)

lemma purged_run: "purged n (db w) \<Longrightarrow> purged n (db (run rqs w))"
  by (induction rqs arbitrary: w) (auto intro: purged_handle)

lemma db_inv_init: "db_inv (db world_init)"
  by (simp add: world_init_def db_init_def db_inv_def)

lemma db_inv_reachable: "db_inv (db (run rqs world_init))"
  by (rule db_inv_run [OF db_inv_init])

lemma purged_not_found: "purged n d \<Longrightarrow> getFileById (Some n) d = None"
  by (simp add: purged_def getFileById_None_iff)

lemma delete_ok_purged:
  assumes "db_inv (db w)" "status (fst (delete_handler p del w)) = 200"
  shows "\<exists>n. parseInt p = Some n \<and> purged n (db (snd (delete_handler p del w)))"
proof (cases "getFileById (parseInt p) (db w)")
  case None
  with assms(2) show ?thesis
    by (simp add: delete_handler_def Let_def not_found_def respond_def)
next
  case (Some f)
  then obtain n where n: "parseInt p = Some n" "file_id f = n" "f \<in> set (files (db w))"
    by (auto dest: getFileById_SomeD)
  from assms(2) Some have del: "del = S3Ok"
    by (cases del) (simp_all add: delete_handler_def Let_def respond_def)
  have "n \<le> seq (db w)" using assms(1) n by (auto simp: db_inv_def list_all_iff)
  then have "purged n (deleteFile (Some n) (db w))"
    by (auto simp: purged_def deleteFile_def)
  with Some del n show ?thesis by (simp add: delete_handler_def Let_def)
qed

text \<open>
  C6. After a permanent delete of an id has answered 200, and after any further sequence
  of requests, every route addressed by that id (download, star, unstar, trash, restore,
  delete) answers 404: the table never hands the id out again.
\<close>

theorem purge_is_terminal:
  assumes "db_inv (db w)" "status (fst (delete_handler p del w)) = 200" "parseInt q = parseInt p"
  shows "download_handler q sign (run rqs (snd (delete_handler p del w))) =
           (not_found, run rqs (snd (delete_handler p del w))) \<and>
         star_handler q (run rqs (snd (delete_handler p del w))) =
           (not_found, run rqs (snd (delete_handler p del w))) \<and>
         unstar_handler q (run rqs (snd (delete_handler p del w))) =
           (not_found, run rqs (snd (delete_handler p del w))) \<and>
         trash_handler q (run rqs (snd (delete_handler p del w))) =
           (not_found, run rqs (snd (delete_handler p del w))) \<and>
         restore_handler q (run rqs (snd (delete_handler p del w))) =
           (not_found, run rqs (snd (delete_handler p del w))) \<and>
         delete_handler q del' (run rqs (snd (delete_handler p del w))) =
           (not_found, run rqs (snd (delete_handler p del w))) \<and>
         status not_found = 404"
proof -
  let ?w = "run rqs (snd (delete_handler p del w))"
  from delete_ok_purged [OF assms(1,2)] obtain n
    where n: "parseInt p = Some n" "purged n (db (snd (delete_handler p del w)))" by blast
  then have "purged n (db ?w)" by (intro purged_run)
  then have "getFileById (parseInt q) (db ?w) = None"
    using n(1) assms(3) by (simp add: purged_not_found)
  then show ?thesis
    by (simp add: download_handler_def star_handler_def unstar_handler_def trash_handler_def
        restore_handler_def delete_handler_def not_found_def respond_def Let_def)
qed

theorem purge_is_terminal_witness:
  "db_inv (db world_a) \<and>
   status (fst (delete_handler ''1'' S3Ok world_a)) = 200 \<and>
   parseInt '' 1'' = parseInt ''1'' \<and>
   fst (download_handler '' 1'' (\<lambda>k. Some k)
     (run [UploadFile (Some file_a) clock_a S3Ok, Star ''2'']
        (snd (delete_handler ''1'' S3Ok world_a)))) = not_found \<and>
   fst (star_handler '' 1''
     (run [UploadFile (Some file_a) clock_a S3Ok, Star ''2'']
        (snd (delete_handler ''1'' S3Ok world_a)))) = not_found"
proof -
  have g: "getFileById (parseInt ''1'') (db world_a) = Some row_a"
    by (simp add: parse_1 get_world_a)
  have s: "status (fst (delete_handler ''1'' S3Ok world_a)) = 200"
    using g by (simp add: delete_handler_def Let_def respond_def)
  have p: "parseInt '' 1'' = parseInt ''1''"
    by (simp add: parseInt_def is_space_def is_digit_def digit_value_def digits_value_def)
  note t = purge_is_terminal [where sign = "\<lambda>k. Some k"
      and rqs = "[UploadFile (Some file_a) clock_a S3Ok, Star ''2'']", OF db_inv_world_a s p]
  show ?thesis
    using t db_inv_world_a s p by (simp del: run.simps)
qed


section \<open>The list route with a negative limit\<close>

lemma s3Key_b: "s3Key 1700000002123 ''b.png'' = ''files/1700000002123-b.png''"
  by (simp add: s3Key_def decimal.simps digit_char_def)

lemma db_world_ab: "db world_ab = \<lparr>files = [row_a, row_b], seq = 2\<rparr>"
  by (simp add: world_ab_def upload_handler_def file_b_def clock_b_def s3Key_b db_world_a
      insertFile_def next_rowid_def row_a_def row_b_def Let_def)

lemma order_world_ab: "order_by_created_at_desc (files (db world_ab)) = [row_b, row_a]"
  by (simp add: db_world_ab order_by_created_at_desc_def row_a_def row_b_def)

lemma run_append: "run (xs @ ys) w = run ys (run xs w)"
  by (induction xs arbitrary: w) auto

lemma fold_max_absorb: "(\<And>x. x \<in> set xs \<Longrightarrow> x \<le> s) \<Longrightarrow> fold max xs (s::int) = s"
  by (induction xs) (auto simp: max_absorb2)

lemma db_world_n:
  "db (world_n n) =
     \<lparr>files = map (\<lambda>k. \<lparr>file_id = int k, name = ''a.txt'', file_size = 10,
                content_type = ''text/plain'', s3_key = s3Key (60000 * k) ''a.txt'',
                starred = 0, trashed = 0, created_at = 60 * k\<rparr>) [1 ..< Suc n],
      seq = int n\<rparr>"
proof (induction n)
  case 0
  then show ?case by (simp add: world_n_def world_init_def db_init_def)
next
  case (Suc n)
  have w: "world_n (Suc n) = snd (handle (upload_n (Suc n)) (world_n n))"
    by (simp add: world_n_def run_append del: upt_Suc add: upt_Suc_append)
  have mx: "fold max (map int [Suc 0 ..< Suc n]) (int n) = int n"
    by (rule fold_max_absorb) auto
  have up: "[1 ..< Suc (Suc n)] = [1 ..< Suc n] @ [Suc n]"
    by (simp del: upt_Suc add: upt_Suc_append)
  show ?case
    unfolding w up
    by (simp add: upload_n_def upload_handler_def file_a_def insertFile_def next_rowid_def
        Suc.IH s3Key_inj comp_def mx image_iff Let_def del: upt_Suc)
qed

lemma length_world_n: "length (files (db (world_n n))) = n"
  by (simp add: db_world_n del: upt_Suc)

lemma list_handler_negative_limit:
  assumes "parseInt_query qlimit = Some n" "n < 0"
  shows "response_files (fst (list_handler None qlimit w)) =
           order_by_created_at_desc (files (db w))"
  using assms
  by (simp add: list_handler_def response_files_def respond_def selectFiles_def js_or_def
      parseInt_query_def Let_def)

lemma parse_minus_1: "parseInt ''-1'' = Some (- 1)"
  by (simp add: parseInt_def is_space_def is_digit_def digit_value_def digits_value_def)

text \<open>
  C3. The route clamps the limit from above only: \<^verbatim>\<open>Math.min(parseInt(limit) || 20, 100)\<close>.
  A negative limit passes the clamp, and SQLite reads a negative LIMIT as no limit. After
  101 uploads (one per minute), \<^verbatim>\<open>GET /api/files?limit=-1\<close> answers 200 with all 101
  rows, more than the cap of 100. (For an absent, unparsable or non-negative limit the
  response has at most 100 rows, and a page beyond the last row is an empty list with
  status 200: see \<open>list_handler_bounded\<close> and \<open>list_out_of_range_empty\<close>.)
\<close>

theorem list_negative_limit_unbounded:
  "status (fst (list_handler None (Some ''-1'') (world_n 101))) = 200 \<and>
   length (response_files (fst (list_handler None (Some ''-1'') (world_n 101)))) = 101"
proof -
  have "parseInt_query (Some ''-1'') = Some (- 1)"
    by (simp add: parseInt_query_def parse_minus_1)
  then have "response_files (fst (list_handler None (Some ''-1'') (world_n 101))) =
      order_by_created_at_desc (files (db (world_n 101)))"
    by (rule list_handler_negative_limit) simp
  then show ?thesis
    by (simp add: order_by_created_at_desc_def length_world_n list_handler_def respond_def Let_def)
qed

lemma list_handler_bounded:
  assumes "parseInt_query qlimit = None \<or> (\<exists>n. parseInt_query qlimit = Some n \<and> 0 \<le> n)"
  shows "length (response_files (fst (list_handler qpage qlimit w))) \<le> 100"
proof -
  define limit where "limit = min (js_or (parseInt_query qlimit) 20) 100"
  have "0 \<le> limit" "limit \<le> 100"
    using assms by (auto simp: js_or_def limit_def)
  then have "length (selectFiles limit off (db w)) \<le> 100" for off
    by (auto simp: selectFiles_def Let_def)
  then show ?thesis unfolding limit_def
    by (simp add: list_handler_def response_files_def respond_def Let_def)
qed

lemma list_out_of_range_empty:
  assumes "int (length (files (db w))) \<le> (js_or (parseInt_query qpage) 1 - 1) *
             min (js_or (parseInt_query qlimit) 20) 100"
  shows "fst (list_handler qpage qlimit w) =
           respond 200 (FileList []
             \<lparr>currentPage = js_or (parseInt_query qpage) 1,
              totalItems = int (length (files (db w))),
              totalPages = \<lceil>real (length (files (db w))) /
                             real_of_int (min (js_or (parseInt_query qlimit) 20) 100)\<rceil>,
              itemsPerPage = min (js_or (parseInt_query qlimit) 20) 100,
              hasNext = (js_or (parseInt_query qpage) 1 <
                 \<lceil>real (length (files (db w))) /
                    real_of_int (min (js_or (parseInt_query qlimit) 20) 100)\<rceil>),
              hasPrev = (1 < js_or (parseInt_query qpage) 1)\<rparr>)"
proof -
  have "length (order_by_created_at_desc (files (db w))) \<le>
        nat ((js_or (parseInt_query qpage) 1 - 1) * min (js_or (parseInt_query qlimit) 20) 100)"
    using assms by (simp add: order_by_created_at_desc_def)
  then show ?thesis
    by (simp add: list_handler_def selectFiles_def countFiles_def Let_def)
qed

section \<open>The pages of a listing\<close>

text \<open>
  C4. For a limit \<open>l\<close> between 1 and 100, requested as \<^verbatim>\<open>?page=p&limit=l\<close>: the pages
  1 to \<open>ceil (N / l)\<close>, one after the other, hold exactly the \<open>N\<close> rows of the table (the
  same multiset, so nothing is left out and, ids being distinct, nothing twice), in
  descending order of \<open>created_at\<close>; every single page is in that order too and has at
  most \<open>l\<close> rows.
\<close>

theorem pages_partition_sorted:
  assumes "1 \<le> l" "l \<le> 100"
  shows "mset (all_pages l w) = mset (files (db w)) \<and>
         length (all_pages l w) = length (files (db w)) \<and>
         (distinct (map file_id (files (db w))) \<longrightarrow> distinct (map file_id (all_pages l w))) \<and>
         sorted_wrt (\<lambda>a b. created_at b \<le> created_at a) (all_pages l w) \<and>
         (1 \<le> p \<longrightarrow> sorted_wrt (\<lambda>a b. created_at b \<le> created_at a) (page_files p l w)) \<and>
         (1 \<le> p \<longrightarrow> length (page_files p l w) \<le> l) \<and>
         int (page_count l w) = \<lceil>real (length (files (db w))) / real l\<rceil>"
proof -
  let ?xs = "order_by_created_at_desc (files (db w))"
  have a: "all_pages l w = ?xs" by (rule all_pages_eq [OF assms])
  have m: "mset ?xs = mset (files (db w))" by (simp add: order_by_created_at_desc_def)
  have "mset (map file_id ?xs) = mset (map file_id (files (db w)))"
    using m by (metis mset_map)
  then have d: "distinct (map file_id ?xs) \<longleftrightarrow> distinct (map file_id (files (db w)))"
    by (rule mset_eq_imp_distinct_iff)
  have s: "sorted_wrt (\<lambda>a b. created_at b \<le> created_at a) ?xs" by (rule sorted_desc_order_by)
  have pg: "sorted_wrt (\<lambda>a b. created_at b \<le> created_at a) (page_files p l w) \<and>
            length (page_files p l w) \<le> l" if "1 \<le> p"
    using s by (simp add: page_files_eq [OF that assms] sorted_wrt_take sorted_wrt_drop)
  show ?thesis
    using a m d s pg page_count_ceiling [OF assms(1), of w]
    by (simp add: order_by_created_at_desc_def)
qed

theorem pages_partition_sorted_witness:
  "(1::nat) \<le> 1 \<and> (1::nat) \<le> 100 \<and> page_count 1 world_ab = 2 \<and>
   files (db world_ab) = [row_a, row_b] \<and>
   page_files 1 1 world_ab = [row_b] \<and> page_files 2 1 world_ab = [row_a] \<and>
   all_pages 1 world_ab = [row_b, row_a] \<and>
   mset (all_pages 1 world_ab) = mset (files (db world_ab)) \<and>
   distinct (map file_id (all_pages 1 world_ab)) \<and>
   sorted_wrt (\<lambda>a b. created_at b \<le> created_at a) (all_pages 1 world_ab)"
proof -
  have l: "(1::nat) \<le> 1" "(1::nat) \<le> 100" by simp_all
  have d: "distinct (map file_id (files (db world_ab)))"
    by (simp add: db_world_ab row_a_def row_b_def)
  have p1: "page_files 1 1 world_ab = [row_b]" "page_files 2 1 world_ab = [row_a]"
    by (simp_all add: page_files_eq order_world_ab)
  have al: "all_pages 1 world_ab = [row_b, row_a]"
    by (simp add: all_pages_eq order_world_ab)
  have pc: "page_count 1 world_ab = 2" by (simp add: page_count_def db_world_ab)
  show ?thesis
    using pages_partition_sorted [OF l, of world_ab 1] d p1 al pc
    by (simp add: db_world_ab)
qed

section \<open>Storage keys\<close>

text \<open>
  C5, counterexample. The key is built from the clock's millisecond and the file name
  only. Uploading \<^verbatim>\<open>a.txt\<close> again within the same millisecond generates the key of the
  row that exists already; the insert is refused and the route answers 500.
\<close>

theorem storage_key_collision_counterexample:
  "s3Key (date_now clock_a) (originalname file_a) \<in> set (map s3_key (files (db world_a))) \<and>
   fst (upload_handler (Some file_a) clock_a S3Ok world_a) =
     respond 500 (ErrorMsg ''Failed to upload file'')"
proof -
  have k: "s3Key (date_now clock_a) (originalname file_a) = ''files/1700000000123-a.txt''"
    by (simp add: clock_a_def file_a_def s3Key_a)
  have "s3Key (date_now clock_a) (originalname file_a) \<in> set (map s3_key (files (db world_a)))"
    unfolding k by (simp add: db_world_a row_a_def)
  then show ?thesis
    by (simp add: upload_handler_def insertFile_def Let_def)
qed

lemma upload_keeps_keys_distinct:
  assumes "distinct (map s3_key (files (db w)))"
  shows "distinct (map s3_key (files (db (snd (upload_handler reqfile clk put w)))))"
proof -
  let ?d = "db (snd (upload_handler reqfile clk put w))"
  from db_upload_cases [of reqfile clk put w] show ?thesis
  proof
    assume "?d = db w"
    with assms show ?thesis by simp
  next
    assume "\<exists>f rid. reqfile = Some f \<and>
      insertFile (originalname f) (size_bytes f) (mimetype f)
        (s3Key (date_now clk) (originalname f)) (current_timestamp clk) (db w) = Inr (rid, ?d)"
    then obtain f rid where rf: "reqfile = Some f"
      and i: "insertFile (originalname f) (size_bytes f) (mimetype f)
        (s3Key (date_now clk) (originalname f)) (current_timestamp clk) (db w) = Inr (rid, ?d)"
      by blast
    show ?thesis
      using insertFile_Inr(1) [OF i] insertFile_Inr(4) [OF i] assms by simp
  qed
qed

text \<open>
  C5, as amended. The key \<^verbatim>\<open>files/<Date.now()>-<name>\<close> determines the millisecond and
  the name it was built from, so two uploads get the same key only when both agree. No two
  rows ever share a key all the same: an upload keeps the keys of the table distinct, and
  one whose key is already some row's key is answered with 500 and leaves the table as it
  was.
\<close>

theorem storage_key_unique_by_constraint:
  "(s3Key t nm = s3Key t' nm' \<longleftrightarrow> t = t' \<and> nm = nm') \<and>
   (distinct (map s3_key (files (db w))) \<longrightarrow>
      distinct (map s3_key (files (db (snd (upload_handler reqfile clk put w)))))) \<and>
   (s3Key (date_now clk) (originalname f) \<in> set (map s3_key (files (db w))) \<longrightarrow>
      fst (upload_handler (Some f) clk put w) = respond 500 (ErrorMsg ''Failed to upload file'') \<and>
      db (snd (upload_handler (Some f) clk put w)) = db w)"
proof (intro conjI impI)
  show "s3Key t nm = s3Key t' nm' \<longleftrightarrow> t = t' \<and> nm = nm'" by (rule s3Key_inj)
next
  assume "distinct (map s3_key (files (db w)))"
  then show "distinct (map s3_key (files (db (snd (upload_handler reqfile clk put w)))))"
    by (rule upload_keeps_keys_distinct)
next
  assume k: "s3Key (date_now clk) (originalname f) \<in> set (map s3_key (files (db w)))"
  then show "fst (upload_handler (Some f) clk put w) = respond 500 (ErrorMsg ''Failed to upload file'')"
    by (cases put) (simp_all add: upload_handler_def insertFile_def Let_def)
  from k show "db (snd (upload_handler (Some f) clk put w)) = db w"
    by (cases put) (simp_all add: upload_handler_def insertFile_def Let_def)
qed

theorem storage_key_unique_by_constraint_witness:
  "s3Key 1700000000123 ''a.txt'' \<noteq> s3Key 1700000002123 ''b.png'' \<and>
   distinct (map s3_key (files (db world_a))) \<and>
   distinct (map s3_key (files (db (snd (upload_handler (Some file_b) clock_b S3Ok world_a))))) \<and>
   map s3_key (files (db (snd (upload_handler (Some file_b) clock_b S3Ok world_a)))) =
     [''files/1700000000123-a.txt'', ''files/1700000002123-b.png''] \<and>
   s3Key (date_now clock_a) (originalname file_a) \<in> set (map s3_key (files (db world_a))) \<and>
   db (snd (upload_handler (Some file_a) clock_a S3Ok world_a)) = db world_a"
proof -
  have d: "distinct (map s3_key (files (db world_a)))"
    by (simp add: db_world_a)
  have k: "s3Key (date_now clock_a) (originalname file_a) \<in> set (map s3_key (files (db world_a)))"
    by (simp add: clock_a_def file_a_def s3Key_a db_world_a row_a_def)
  have m: "map s3_key (files (db (snd (upload_handler (Some file_b) clock_b S3Ok world_a)))) =
     [''files/1700000000123-a.txt'', ''files/1700000002123-b.png'']"
    using db_world_ab by (simp add: world_ab_def row_a_def row_b_def)
  note t = storage_key_unique_by_constraint [where t = 1700000000123 and nm = "''a.txt''"
      and t' = 1700000002123 and nm' = "''b.png''" and w = world_a and reqfile = "Some file_b"
      and clk = clock_b and put = S3Ok]
    storage_key_unique_by_constraint [where w = world_a and f = file_a and clk = clock_a
      and put = S3Ok]
  show ?thesis using t d k m by simp
qed

section \<open>The response of an upload\<close>

text \<open>
  C8, counterexample. The 201 response is built by hand; its \<open>created_at\<close> is the
  handler's \<^verbatim>\<open>new Date().toISOString()\<close>, not the value the table stored. For \<^verbatim>\<open>a.txt\<close>,
  answered at millisecond 1700000000125, the response carries that instant while the row
  carries \<^verbatim>\<open>CURRENT_TIMESTAMP\<close>, second 1700000000.
\<close>

theorem upload_created_at_counterexample:
  "fst (upload_handler (Some file_a) clock_a S3Ok world_init) =
     respond 201 (Uploaded \<lparr>r_id = 1, r_name = ''a.txt'', r_size = 10,
        r_content_type = ''text/plain'', r_s3_key = ''files/1700000000123-a.txt'',
        r_starred = 0, r_trashed = 0, r_created_at = 1700000000125\<rparr>) \<and>
   files (db (snd (upload_handler (Some file_a) clock_a S3Ok world_init))) = [row_a] \<and>
   created_at row_a = 1700000000 \<and>
   (1700000000125 :: nat) \<noteq> 1000 * created_at row_a"
  by (simp add: upload_a row_a_def)

lemma list_default_small:
  assumes "length (files (db w)) \<le> 20"
  shows "response_files (fst (list_handler None None w)) = order_by_created_at_desc (files (db w))"
  using assms
  by (simp add: list_handler_def response_files_def respond_def selectFiles_def js_or_def
      parseInt_query_def order_by_created_at_desc_def Let_def)

lemma in_all_pages:
  assumes "r \<in> set (all_pages l w)"
  shows "\<exists>p. 1 \<le> p \<and> p \<le> page_count l w \<and> r \<in> set (page_files p l w)"
  using assms by (auto simp: all_pages_def less_Suc_eq_le)

text \<open>
  C8, as amended. An upload answered with 201 returns the id the table assigned (one no
  row had), the uploaded name, size and content type, the storage key, \<open>starred = 0\<close>,
  \<open>trashed = 0\<close>, and as \<open>created_at\<close> the handler's own clock reading. The table then holds
  one more row, with that id and the uploaded name, size and content type; the row is on one
  of the pages of a listing with any limit from 1 to 100, and in the response of a list
  request without parameters when the table held fewer than 20 rows before.
\<close>

theorem upload_response_and_list:
  assumes ok: "status (fst (upload_handler reqfile clk put w)) = 201"
    and l: "1 \<le> l" "l \<le> 100"
  shows "\<exists>f row. reqfile = Some f \<and>
      fst (upload_handler reqfile clk put w) =
        respond 201 (Uploaded
          \<lparr>r_id = next_rowid (db w), r_name = originalname f, r_size = size_bytes f,
           r_content_type = mimetype f, r_s3_key = s3Key (date_now clk) (originalname f),
           r_starred = 0, r_trashed = 0, r_created_at = response_date clk\<rparr>) \<and>
      next_rowid (db w) \<notin> set (map file_id (files (db w))) \<and>
      row = \<lparr>file_id = next_rowid (db w), name = originalname f, file_size = size_bytes f,
             content_type = mimetype f, s3_key = s3Key (date_now clk) (originalname f),
             starred = 0, trashed = 0, created_at = current_timestamp clk\<rparr> \<and>
      files (db (snd (upload_handler reqfile clk put w))) = files (db w) @ [row] \<and>
      (\<exists>p. 1 \<le> p \<and> p \<le> page_count l (snd (upload_handler reqfile clk put w)) \<and>
           row \<in> set (page_files p l (snd (upload_handler reqfile clk put w)))) \<and>
      (length (files (db w)) < 20 \<longrightarrow>
         row \<in> set (response_files
           (fst (list_handler None None (snd (upload_handler reqfile clk put w))))))"
proof -
  let ?w' = "snd (upload_handler reqfile clk put w)"
  from ok obtain f where f: "reqfile = Some f"
    by (cases reqfile) (auto simp: upload_handler_def respond_def)
  from ok f have put: "put = S3Ok"
    by (cases put) (auto simp: upload_handler_def respond_def Let_def)
  let ?key = "s3Key (date_now clk) (originalname f)"
  let ?row = "\<lparr>file_id = next_rowid (db w), name = originalname f, file_size = size_bytes f,
             content_type = mimetype f, s3_key = ?key,
             starred = 0, trashed = 0, created_at = current_timestamp clk\<rparr>"
  from ok f put have fresh: "?key \<notin> set (map s3_key (files (db w)))"
    by (auto simp: upload_handler_def respond_def insertFile_def Let_def split: if_splits)
  then have ins: "insertFile (originalname f) (size_bytes f) (mimetype f) ?key
      (current_timestamp clk) (db w) =
      Inr (next_rowid (db w), \<lparr>files = files (db w) @ [?row], seq = next_rowid (db w)\<rparr>)"
    by (simp add: insertFile_def Let_def)
  have resp: "fst (upload_handler reqfile clk put w) =
        respond 201 (Uploaded
          \<lparr>r_id = next_rowid (db w), r_name = originalname f, r_size = size_bytes f,
           r_content_type = mimetype f, r_s3_key = ?key,
           r_starred = 0, r_trashed = 0, r_created_at = response_date clk\<rparr>)"
    using f put ins by (simp add: upload_handler_def Let_def)
  have fs: "files (db ?w') = files (db w) @ [?row]"
    using f put ins by (simp add: upload_handler_def Let_def)
  have new: "next_rowid (db w) \<notin> set (map file_id (files (db w)))"
  proof
    assume "next_rowid (db w) \<in> set (map file_id (files (db w)))"
    then obtain r where "r \<in> set (files (db w))" "file_id r = next_rowid (db w)" by auto
    with next_rowid_fresh(2) [of r "db w"] show False by simp
  qed
  have "?row \<in> set (all_pages l ?w')"
    using fs by (simp add: all_pages_eq [OF l] order_by_created_at_desc_def)
  then have pg: "\<exists>p. 1 \<le> p \<and> p \<le> page_count l ?w' \<and> ?row \<in> set (page_files p l ?w')"
    by (rule in_all_pages)
  have dflt: "?row \<in> set (response_files (fst (list_handler None None ?w')))"
    if "length (files (db w)) < 20"
  proof -
    have "length (files (db ?w')) \<le> 20" using that fs by simp
    then show ?thesis using fs
      by (simp add: list_default_small order_by_created_at_desc_def)
  qed
  show ?thesis
    using f resp new fs pg dflt by blast
qed

theorem upload_response_and_list_witness:
  "status (fst (upload_handler (Some file_a) clock_a S3Ok world_init)) = 201 \<and>
   (1::nat) \<le> 20 \<and> (20::nat) \<le> 100 \<and>
   files (db (snd (upload_handler (Some file_a) clock_a S3Ok world_init))) = [row_a] \<and>
   page_count 20 world_a = 1 \<and>
   page_files 1 20 world_a = [row_a] \<and>
   response_files (fst (list_handler None None world_a)) = [row_a] \<and>
   (\<exists>f row. Some file_a = Some f \<and>
      files (db (snd (upload_handler (Some file_a) clock_a S3Ok world_init))) =
        files (db world_init) @ [row] \<and>
      row \<in> set (response_files (fst (list_handler None None
         (snd (upload_handler (Some file_a) clock_a S3Ok world_init))))))"
proof -
  have s: "status (fst (upload_handler (Some file_a) clock_a S3Ok world_init)) = 201"
    by (simp add: upload_a respond_def)
  have l: "(1::nat) \<le> 20" "(20::nat) \<le> 100" by simp_all
  have n: "length (files (db world_init)) < 20"
    by (simp add: world_init_def db_init_def)
  have fs: "files (db (snd (upload_handler (Some file_a) clock_a S3Ok world_init))) = [row_a]"
    by (simp add: upload_a)
  have pc: "page_count 20 world_a = 1" by (simp add: page_count_def db_world_a)
  have pf: "page_files 1 20 world_a = [row_a]"
    by (simp add: page_files_eq db_world_a order_by_created_at_desc_def)
  have ld: "response_files (fst (list_handler None None world_a)) = [row_a]"
    by (simp add: list_default_small db_world_a order_by_created_at_desc_def)
  from upload_response_and_list [OF s l] n
  have "\<exists>f row. Some file_a = Some f \<and>
      files (db (snd (upload_handler (Some file_a) clock_a S3Ok world_init))) =
        files (db world_init) @ [row] \<and>
      row \<in> set (response_files (fst (list_handler None None
         (snd (upload_handler (Some file_a) clock_a S3Ok world_init)))))"
    by blast
  with s l fs pc pf ld show ?thesis by blast
qed

section \<open>The section filter of the client\<close>

lemma matchesSearch_empty: "matchesSearch [] r"
  by (simp add: matchesSearch_def toLowerCase_def)

text \<open>
  C9. A fetched record is shown under \<^verbatim>\<open>My Drive\<close> iff it is not trashed and matches the
  search term, and under \<^verbatim>\<open>Trash\<close> iff it is trashed and matches the search term; never
  under both. A trashed record is shown neither under \<^verbatim>\<open>Recent\<close> nor under \<^verbatim>\<open>Starred\<close>.
  With the empty search term, which every name matches, membership is decided by the
  \<open>trashed\<close> flag alone.
\<close>

theorem section_filter_trash_exclusive:
  "(r \<in> set (filteredFiles fs searchTerm ''My Drive'') \<longleftrightarrow>
      r \<in> set fs \<and> \<not> truthy (trashed r) \<and> matchesSearch searchTerm r) \<and>
   (r \<in> set (filteredFiles fs searchTerm ''Trash'') \<longleftrightarrow>
      r \<in> set fs \<and> truthy (trashed r) \<and> matchesSearch searchTerm r) \<and>
   \<not> (r \<in> set (filteredFiles fs searchTerm ''My Drive'') \<and>
      r \<in> set (filteredFiles fs searchTerm ''Trash'')) \<and>
   (truthy (trashed r) \<longrightarrow>
      r \<notin> set (filteredFiles fs searchTerm ''Recent'') \<and>
      r \<notin> set (filteredFiles fs searchTerm ''Starred'')) \<and>
   (r \<in> set (filteredFiles fs [] ''My Drive'') \<longleftrightarrow> r \<in> set fs \<and> \<not> truthy (trashed r)) \<and>
   (r \<in> set (filteredFiles fs [] ''Trash'') \<longleftrightarrow> r \<in> set fs \<and> truthy (trashed r))"
  by (simp add: filteredFiles_def matchesSearch_empty)

theorem section_filter_trash_exclusive_witness:
  "truthy (trashed (row_b\<lparr>trashed := 1\<rparr>)) \<and>
   filteredFiles [row_a, row_b\<lparr>trashed := 1\<rparr>] [] ''My Drive'' = [row_a] \<and>
   filteredFiles [row_a, row_b\<lparr>trashed := 1\<rparr>] [] ''Trash'' = [row_b\<lparr>trashed := 1\<rparr>] \<and>
   row_b\<lparr>trashed := 1\<rparr> \<notin> set (filteredFiles [row_a, row_b\<lparr>trashed := 1\<rparr>] [] ''Recent'') \<and>
   row_b\<lparr>trashed := 1\<rparr> \<notin> set (filteredFiles [row_a, row_b\<lparr>trashed := 1\<rparr>] [] ''Starred'') \<and>
   row_b\<lparr>trashed := 1\<rparr> \<notin> set (filteredFiles [row_a, row_b\<lparr>trashed := 1\<rparr>] ''B.PNG'' ''My Drive'') \<and>
   row_b\<lparr>trashed := 1\<rparr> \<in> set (filteredFiles [row_a, row_b\<lparr>trashed := 1\<rparr>] ''B.PNG'' ''Trash'')"
proof -
  have t: "truthy (trashed (row_b\<lparr>trashed := 1\<rparr>))" "\<not> truthy (trashed row_a)"
    by (simp_all add: truthy_def row_a_def)
  have m: "matchesSearch ''B.PNG'' (row_b\<lparr>trashed := 1\<rparr>)"
    by (simp add: matchesSearch_def toLowerCase_def row_b_def char_of_def bit_Suc_0_iff)
  have e: "filteredFiles [row_a, row_b\<lparr>trashed := 1\<rparr>] [] ''My Drive'' = [row_a]"
    "filteredFiles [row_a, row_b\<lparr>trashed := 1\<rparr>] [] ''Trash'' = [row_b\<lparr>trashed := 1\<rparr>]"
    using t by (simp_all add: filteredFiles_def matchesSearch_empty)
  note s = section_filter_trash_exclusive [of "row_b\<lparr>trashed := 1\<rparr>"
      "[row_a, row_b\<lparr>trashed := 1\<rparr>]"]
  show ?thesis
    using s [of "''B.PNG''"] s [of "[]"] t m e by simp
qed


section \<open>Every row of a reachable state has its blob\<close>

text \<open>
  Starting from the empty service, whatever requests arrive and however the bucket answers
  them, every row's storage key names an object of the bucket: uploads write the object
  first, deletes remove the row with the object, and the flag routes touch neither.
\<close>

lemma blobs_present_keys:
  "blobs_present w \<longleftrightarrow> (\<forall>k \<in> set (map s3_key (files (db w))). bucket w k \<noteq> None)"
  by (auto simp: blobs_present_def list_all_iff)

lemma blobs_present_upload:
  assumes "blobs_present w"
  shows "blobs_present (snd (upload_handler reqfile clk put w))"
proof (cases reqfile)
  case None
  with assms show ?thesis by (simp add: upload_handler_def)
next
  case (Some f)
  show ?thesis
  proof (cases put)
    case S3Failed
    with Some assms show ?thesis
      by (simp add: upload_handler_def Let_def blobs_present_keys del: set_map)
  next
    case S3Ok
    with Some assms show ?thesis
      by (auto simp: upload_handler_def Let_def blobs_present_keys insertFile_def
          split: sum.splits if_splits)
  qed
qed

lemma blobs_present_handle:
  assumes "db_inv (db w)" "blobs_present w"
  shows "blobs_present (snd (handle rq w))"
proof (cases rq)
  case (ListFiles qp ql)
  with assms show ?thesis by (simp add: list_handler_def Let_def)
next
  case (UploadFile reqfile clk put)
  with assms show ?thesis by (simp add: blobs_present_upload)
next
  case (Download p sign)
  with assms show ?thesis by (simp add: download_handler_def Let_def split: option.splits)
next
  case (Star p)
  with assms show ?thesis
    by (simp add: star_handler_def Let_def blobs_present_keys split: option.splits del: set_map)
next
  case (Unstar p)
  with assms show ?thesis
    by (simp add: unstar_handler_def Let_def blobs_present_keys split: option.splits del: set_map)
next
  case (Trash p)
  with assms show ?thesis
    by (simp add: trash_handler_def Let_def blobs_present_keys split: option.splits del: set_map)
next
  case (Restore p)
  with assms show ?thesis
    by (simp add: restore_handler_def Let_def blobs_present_keys split: option.splits del: set_map)
next
  case (DeleteForever p del)
  show ?thesis
  proof (cases "getFileById (parseInt p) (db w)")
    case None
    with DeleteForever assms show ?thesis by (simp add: delete_handler_def Let_def)
  next
    case (Some f)
    show ?thesis
    proof (cases del)
      case S3Ok
      with Some DeleteForever blobs_present_delete [OF Some assms] show ?thesis
        by (simp add: delete_handler_def Let_def emit_def)
    next
      case S3Failed
      with Some DeleteForever assms show ?thesis
        by (simp add: delete_handler_def Let_def blobs_present_keys del: set_map)
    qed
  qed
qed

lemma blobs_present_run:
  "db_inv (db w) \<Longrightarrow> blobs_present w \<Longrightarrow> blobs_present (run rqs w)"
  by (induction rqs arbitrary: w) (auto intro: blobs_present_handle db_inv_handle)

lemma blobs_present_reachable: "blobs_present (run rqs world_init)"
  by (rule blobs_present_run [OF db_inv_init])
     (simp add: blobs_present_def world_init_def db_init_def)

end
